theory Spec2Isabelle
  imports Complex_Main "HOL-Library.Sublist" "HOL-Library.Multiset" "HOL-Library.Log_Nat"
begin

section \<open>The trend dashboard: data model\<close>

text \<open>
  The dashboard pages declare the same record type:
  \<^verbatim>\<open>
  type Trend = {
    id: number | string;
    topic: string | null;  category: string | null;
    relevance_score: number | null;
    summary: string | null;  spotify_impact: string | null;
    url: string | null;  published_date: string | null;
    week_number: number | null;
  };
  type GroupBy = "week" | "day" | "month";
  type ExportScope = "all" | "month" | "week";
  \<close>
  A nullable field is an \<open>option\<close>. Strings are \<open>string\<close> (the model reads them as
  ASCII text: white space and letter case are those of ASCII). A score, and the minimum
  score of the filter, is the real number that the JavaScript double denotes: the rows
  arrive as JSON, which has no NaN and no infinity, and the filter and the score bands
  only compare these numbers. The band thresholds 0.8 and 0.6 are read as the decimal
  numbers; JavaScript compares with the nearest doubles, which puts only a score that is
  itself the double nearest to 0.6 into the other band. A week number is an integer (JavaScript
  prints integers below \<open>10^21\<close> in plain decimal, which is what \<open>String_int\<close>
  below does). The field \<open>id\<close> is called \<open>ident\<close> here.
\<close>

datatype trend_id = IdNum int | IdStr string

record Trend =
  ident :: trend_id
  topic :: "string option"
  category :: "string option"
  relevance_score :: "real option"
  summary :: "string option"
  spotify_impact :: "string option"
  url :: "string option"
  published_date :: "string option"
  week_number :: "int option"

datatype GroupBy = Week | Day | Month

datatype ExportScope = ScopeAll | ScopeMonth | ScopeWeek

section \<open>JavaScript strings and numbers\<close>

text \<open>\<^verbatim>\<open>s ?? ""\<close> for a nullable string.\<close>

definition orEmpty :: "string option \<Rightarrow> string" where
  "orEmpty s = (case s of None \<Rightarrow> [] | Some x \<Rightarrow> x)"

text \<open>The white space that \<^verbatim>\<open>String.prototype.trim\<close> removes, within ASCII.\<close>

definition js_space :: "char \<Rightarrow> bool" where
  "js_space c = (c \<in> set [CHR '' '', CHR 0x09, CHR 0x0A, CHR 0x0B, CHR 0x0C, CHR 0x0D])"

definition trim :: "string \<Rightarrow> string" where
  "trim s = rev (dropWhile js_space (rev (dropWhile js_space s)))"

definition toLowerCase_char :: "char \<Rightarrow> char" where
  "toLowerCase_char c =
     (let n = (of_char c :: nat) in if 65 \<le> n \<and> n \<le> 90 then char_of (n + 32) else c)"

definition toLowerCase :: "string \<Rightarrow> string" where
  "toLowerCase s = map toLowerCase_char s"

text \<open>\<^verbatim>\<open>s.includes(q)\<close>: \<open>q\<close> occurs in \<open>s\<close> as a contiguous substring.\<close>

fun str_includes :: "string \<Rightarrow> string \<Rightarrow> bool" where
  "str_includes [] q = (q = [])"
| "str_includes (c # cs) q = (prefix q (c # cs) \<or> str_includes cs q)"

text \<open>\<^verbatim>\<open>s.split(c)\<close> for a one-character separator, and \<^verbatim>\<open>xs[i]\<close> (undefined
  out of range).\<close>

fun split_on :: "char \<Rightarrow> string \<Rightarrow> string list" where
  "split_on c [] = [[]]"
| "split_on c (x # xs) =
     (if x = c then [] # split_on c xs
      else (case split_on c xs of [] \<Rightarrow> [[x]] | w # ws \<Rightarrow> (x # w) # ws))"

fun index :: "'a list \<Rightarrow> nat \<Rightarrow> 'a option" where
  "index [] i = None"
| "index (x # xs) 0 = Some x"
| "index (x # xs) (Suc i) = index xs i"

text \<open>\<^verbatim>\<open>String(n)\<close> for an integer: plain decimal, with a minus sign.\<close>

definition digit_char :: "nat \<Rightarrow> char" where
  "digit_char d = ''0123456789'' ! d"

fun digits :: "nat \<Rightarrow> string" where
  "digits n = (if n < 10 then [digit_char n] else digits (n div 10) @ [digit_char (n mod 10)])"

declare digits.simps [simp del]

definition String_int :: "int \<Rightarrow> string" where
  "String_int i = (if i < 0 then CHR ''-'' # digits (nat (- i)) else digits (nat i))"

text \<open>\<^verbatim>\<open>String(n).padStart(2, "0")\<close>\<close>

definition pad2 :: "int \<Rightarrow> string" where
  "pad2 n = (let s = String_int n in if length s < 2 then replicate (2 - length s) CHR ''0'' @ s else s)"

text \<open>\<^verbatim>\<open>Number(s.replace(/\D/g, "")) || 0\<close>: the decimal value of the digits of \<open>s\<close>,
  0 when there is none.\<close>

definition is_digit :: "char \<Rightarrow> bool" where
  "is_digit c = (48 \<le> (of_char c :: nat) \<and> (of_char c :: nat) \<le> 57)"

definition digit_val :: "char \<Rightarrow> nat" where
  "digit_val c = of_char c - 48"

definition digitsNumber :: "string \<Rightarrow> int" where
  "digitsNumber s = int (foldl (\<lambda>a c. 10 * a + digit_val c) 0 (filter is_digit s))"

definition clamp01 :: "real \<Rightarrow> real" where
  "clamp01 n = max 0 (min 1 n)"

section \<open>Dates\<close>

text \<open>
  A valid \<^verbatim>\<open>Date\<close> is its time value: milliseconds since 1970-01-01T00:00Z (the
  model does not bound it; JavaScript's dates end 100 million days from the epoch). The
  calendar functions are those of ECMAScript (\<open>Day\<close>, \<open>WeekDay\<close>, \<open>YearFromTime\<close>,
  \<open>MonthFromTime\<close>, \<open>DateFromTime\<close>, \<open>MakeDay\<close>) on the proleptic Gregorian calendar,
  computed from the day number.
\<close>

definition msPerDay :: int where
  "msPerDay = 86400000"

definition Day_of :: "int \<Rightarrow> int" where
  "Day_of t = t div msPerDay"

text \<open>Year, month (1..12) and day of month (1..31) of a day number.\<close>

definition civil_from_days :: "int \<Rightarrow> int \<times> int \<times> int" where
  "civil_from_days z =
     (let z1 = z + 719468;
          era = z1 div 146097;
          doe = z1 - era * 146097;
          yoe = (doe - doe div 1460 + doe div 36524 - doe div 146096) div 365;
          doy = doe - (365 * yoe + yoe div 4 - yoe div 100);
          mp = (5 * doy + 2) div 153;
          d = doy - (153 * mp + 2) div 5 + 1;
          m = (if mp < 10 then mp + 3 else mp - 9);
          y = yoe + era * 400 + (if m \<le> 2 then 1 else 0)
      in (y, m, d))"

text \<open>The day number of a year, month (1..12) and day; a day beyond the month's end runs
  into the following months, as \<open>MakeDay\<close> does.\<close>

definition days_from_civil :: "int \<Rightarrow> int \<Rightarrow> int \<Rightarrow> int" where
  "days_from_civil y m d =
     (let y1 = (if m \<le> 2 then y - 1 else y);
          era = y1 div 400;
          yoe = y1 - era * 400;
          doy = (153 * (if m > 2 then m - 3 else m + 9) + 2) div 5 + d - 1;
          doe = yoe * 365 + yoe div 4 - yoe div 100 + doy
      in era * 146097 + doe - 719468)"

definition getUTCFullYear :: "int \<Rightarrow> int" where
  "getUTCFullYear t = fst (civil_from_days (Day_of t))"

text \<open>\<^verbatim>\<open>getUTCMonth\<close> counts from 0.\<close>

definition getUTCMonth :: "int \<Rightarrow> int" where
  "getUTCMonth t = fst (snd (civil_from_days (Day_of t))) - 1"

definition getUTCDate :: "int \<Rightarrow> int" where
  "getUTCDate t = snd (snd (civil_from_days (Day_of t)))"

text \<open>\<^verbatim>\<open>getUTCDay\<close>: 0 is Sunday; 1970-01-01 was a Thursday.\<close>

definition getUTCDay :: "int \<Rightarrow> int" where
  "getUTCDay t = (Day_of t + 4) mod 7"

text \<open>\<^verbatim>\<open>Date.UTC(year, month, date)\<close> with \<open>month\<close> counted from 0 and in range; a year from
  0 to 99 means 1900 + year.\<close>

definition Date_UTC :: "int \<Rightarrow> int \<Rightarrow> int \<Rightarrow> int" where
  "Date_UTC y m d =
     (let yr = (if 0 \<le> y \<and> y \<le> 99 then 1900 + y else y)
      in days_from_civil yr (m + 1) d * msPerDay)"

text \<open>\<^verbatim>\<open>d.setUTCDate(n)\<close>: the same year, month and time of day, day of month \<open>n\<close>.\<close>

definition setUTCDate :: "int \<Rightarrow> int \<Rightarrow> int" where
  "setUTCDate t n =
     days_from_civil (getUTCFullYear t) (getUTCMonth t + 1) n * msPerDay + t mod msPerDay"

subsection \<open>The platform\<close>

text \<open>
  What the pages take from the JavaScript runtime and not from their own code: the
  parser behind \<^verbatim>\<open>new Date(string)\<close> (\<open>None\<close> for an invalid date), the local time zone
  offset at an instant in milliseconds, the German formatting of a date and of a month,
  the collation \<^verbatim>\<open>a.localeCompare(b, "de-DE")\<close>, and the host name of
  \<^verbatim>\<open>new URL(string)\<close> (\<open>None\<close> when the constructor throws).
  \<open>month_label y m\<close> is
  \<^verbatim>\<open>new Date(Number(y), Number(m) - 1, 1).toLocaleDateString("de-DE", {month: "long", year: "numeric"})\<close>
  for the two (possibly undefined) strings \<open>y\<close> and \<open>m\<close>.
\<close>

record platform =
  date_parse :: "string \<Rightarrow> int option"
  local_tza :: "int \<Rightarrow> int"
  toLocaleDateString :: "int \<Rightarrow> string"
  month_label :: "string option \<Rightarrow> string option \<Rightarrow> string"
  localeCompare :: "string \<Rightarrow> string \<Rightarrow> int"
  url_hostname :: "string \<Rightarrow> string option"

definition getFullYear :: "platform \<Rightarrow> int \<Rightarrow> int" where
  "getFullYear P t = getUTCFullYear (t + local_tza P t)"

definition getMonth :: "platform \<Rightarrow> int \<Rightarrow> int" where
  "getMonth P t = getUTCMonth (t + local_tza P t)"

definition getDate :: "platform \<Rightarrow> int \<Rightarrow> int" where
  "getDate P t = getUTCDate (t + local_tza P t)"

subsection \<open>The pages' date utilities\<close>

text \<open>
  \<^verbatim>\<open>
  function safeDate(iso: string | null) {
    if (!iso) return null;
    const d = new Date(iso);
    if (Number.isNaN(d.getTime())) return null;
    return d;
  }
  \<close>
\<close>

definition safeDate :: "platform \<Rightarrow> string option \<Rightarrow> int option" where
  "safeDate P s0 =
     (case s0 of None \<Rightarrow> None
      | Some s \<Rightarrow> if s = [] then None else date_parse P s)"

text \<open>
  \<^verbatim>\<open>
  function getISOWeek(date: Date) {
    const d = new Date(Date.UTC(date.getFullYear(), date.getMonth(), date.getDate()));
    d.setUTCDate(d.getUTCDate() + 4 - (d.getUTCDay() || 7));
    const yearStart = new Date(Date.UTC(d.getUTCFullYear(), 0, 1));
    return Math.ceil(((d.getTime() - yearStart.getTime()) / 86400000 + 1) / 7);
  }
  \<close>
  Both time values are UTC midnights, so their difference is a whole number of days and
  the ceiling is taken of an exact quotient.
\<close>

definition getISOWeek :: "platform \<Rightarrow> int \<Rightarrow> int" where
  "getISOWeek P date =
     (let d0 = Date_UTC (getFullYear P date) (getMonth P date) (getDate P date);
          wd = (if getUTCDay d0 = 0 then 7 else getUTCDay d0);
          d = setUTCDate d0 (getUTCDate d0 + 4 - wd);
          yearStart = Date_UTC (getUTCFullYear d) 0 1
      in \<lceil>(real_of_int (d - yearStart) / 86400000 + 1) / 7\<rceil>)"

definition isoDayKey :: "platform \<Rightarrow> int \<Rightarrow> string" where
  "isoDayKey P d =
     String_int (getFullYear P d) @ ''-'' @ pad2 (getMonth P d + 1) @ ''-'' @ pad2 (getDate P d)"

definition monthKey :: "platform \<Rightarrow> int \<Rightarrow> string" where
  "monthKey P d = String_int (getFullYear P d) @ ''-'' @ pad2 (getMonth P d + 1)"

section \<open>Record normalizer\<close>

text \<open>
  \<^verbatim>\<open>
  const normalizedTrends = useMemo(() => {
    return trends
      .map((t) => {
        const d = safeDate(t.published_date);
        return { ...t, week_number: t.week_number ?? (d ? getISOWeek(d) : null) };
      })
      .filter((t) => {
        const hasTopic = Boolean((t.topic ?? "").trim());
        const hasSummary = Boolean((t.summary ?? "").trim());
        const hasImpact = Boolean((t.spotify_impact ?? "").trim());
        const hasUrl = Boolean((t.url ?? "").trim());
        const hasScore = typeof t.relevance_score === "number";
        const hasCategory = Boolean((t.category ?? "").trim());
        const hasDate = Boolean((t.published_date ?? "").trim());
        const hasWeek = typeof t.week_number === "number" && t.week_number > 0;
        return (hasTopic || hasSummary || hasImpact || hasUrl || hasScore
                || hasCategory || hasDate || hasWeek);
      });
  }, [trends]);
  \<close>
  \<open>withWeek\<close> is the callback of \<^verbatim>\<open>map\<close>, \<open>hasContent\<close> the callback of
  \<^verbatim>\<open>filter\<close>.
\<close>

definition withWeek :: "platform \<Rightarrow> Trend \<Rightarrow> Trend" where
  "withWeek P t =
     (let d = safeDate P (published_date t)
      in t\<lparr>week_number :=
            (case week_number t of
               Some w \<Rightarrow> Some w
             | None \<Rightarrow> (case d of Some d' \<Rightarrow> Some (getISOWeek P d') | None \<Rightarrow> None))\<rparr>)"

definition hasContent :: "Trend \<Rightarrow> bool" where
  "hasContent t =
     (let hasTopic = (trim (orEmpty (topic t)) \<noteq> []);
          hasSummary = (trim (orEmpty (summary t)) \<noteq> []);
          hasImpact = (trim (orEmpty (spotify_impact t)) \<noteq> []);
          hasUrl = (trim (orEmpty (url t)) \<noteq> []);
          hasScore = (relevance_score t \<noteq> None);
          hasCategory = (trim (orEmpty (category t)) \<noteq> []);
          hasDate = (trim (orEmpty (published_date t)) \<noteq> []);
          hasWeek = (case week_number t of None \<Rightarrow> False | Some w \<Rightarrow> w > 0)
      in hasTopic \<or> hasSummary \<or> hasImpact \<or> hasUrl \<or> hasScore \<or> hasCategory
         \<or> hasDate \<or> hasWeek)"

definition normalizedTrends :: "platform \<Rightarrow> Trend list \<Rightarrow> Trend list" where
  "normalizedTrends P trends = filter hasContent (map (withWeek P) trends)"

section \<open>Bucket keys and labels\<close>

text \<open>
  \<^verbatim>\<open>
  function slotKeyForTrend(t: Trend, groupBy: GroupBy) {
    const d = safeDate(t.published_date);
    if (groupBy === "week") return t.week_number ? `week:${t.week_number}` : "week:unknown";
    if (groupBy === "day") return d ? `day:${isoDayKey(d)}` : "day:unknown";
    return d ? `month:${monthKey(d)}` : "month:unknown";
  }
  \<close>
  A number is truthy when it is neither 0 nor NaN; a \<^verbatim>\<open>Date\<close> object is always truthy.
\<close>

definition slotKeyForTrend :: "platform \<Rightarrow> Trend \<Rightarrow> GroupBy \<Rightarrow> string" where
  "slotKeyForTrend P t groupBy =
     (let d = safeDate P (published_date t)
      in case groupBy of
           Week \<Rightarrow>
             (case week_number t of
                None \<Rightarrow> ''week:unknown''
              | Some w \<Rightarrow> if w \<noteq> 0 then ''week:'' @ String_int w else ''week:unknown'')
         | Day \<Rightarrow>
             (case d of Some d' \<Rightarrow> ''day:'' @ isoDayKey P d' | None \<Rightarrow> ''day:unknown'')
         | Month \<Rightarrow>
             (case d of Some d' \<Rightarrow> ''month:'' @ monthKey P d' | None \<Rightarrow> ''month:unknown''))"

text \<open>
  \<^verbatim>\<open>
  function slotLabelFromKey(key: string, groupBy: GroupBy) {
    if (key.endsWith(":unknown")) {
      if (groupBy === "week") return "Ohne KW";
      if (groupBy === "day") return "Ohne Datum";
      return "Ohne Monat";
    }
    const raw = key.split(":")[1] ?? "";
    if (groupBy === "week") return `KW ${raw}`;
    if (groupBy === "day") {
      const d = safeDate(raw);
      return d ? d.toLocaleDateString("de-DE") : raw;
    }
    const [y, m] = raw.split("-");
    const d = new Date(Number(y), Number(m) - 1, 1);
    return d.toLocaleDateString("de-DE", { month: "long", year: "numeric" });
  }
  \<close>
\<close>

definition slotLabelFromKey :: "platform \<Rightarrow> string \<Rightarrow> GroupBy \<Rightarrow> string" where
  "slotLabelFromKey P key groupBy =
     (if suffix '':unknown'' key then
        (case groupBy of Week \<Rightarrow> ''Ohne KW'' | Day \<Rightarrow> ''Ohne Datum'' | Month \<Rightarrow> ''Ohne Monat'')
      else
        (let raw = orEmpty (index (split_on CHR '':'' key) 1)
         in case groupBy of
              Week \<Rightarrow> ''KW '' @ raw
            | Day \<Rightarrow>
                (case safeDate P (Some raw) of
                   Some d \<Rightarrow> toLocaleDateString P d
                 | None \<Rightarrow> raw)
            | Month \<Rightarrow>
                (let parts = split_on CHR ''-'' raw
                 in month_label P (index parts 0) (index parts 1))))"

section \<open>Filter engine\<close>

text \<open>
  The page without a search box:
  \<^verbatim>\<open>
  const filtered = useMemo(() => {
    const min = clamp01(minScore);
    return normalizedTrends.filter((t) => {
      const score = t.relevance_score ?? 0;
      if (score < min) return false;
      const category = (t.category ?? "").trim();
      if (selectedCategory !== "all" && category !== selectedCategory) return false;
      if (selectedSlot !== "all") {
        const key = slotKeyForTrend(t, groupBy);
        if (key !== selectedSlot) return false;
      }
      return true;
    });
  }, [groupBy, minScore, normalizedTrends, selectedCategory, selectedSlot]);
  \<close>
  \<open>keepTrend\<close> is the callback of \<^verbatim>\<open>filter\<close>.
\<close>

definition keepTrend :: "platform \<Rightarrow> GroupBy \<Rightarrow> real \<Rightarrow> string \<Rightarrow> string \<Rightarrow> Trend \<Rightarrow> bool" where
  "keepTrend P groupBy minS selectedCategory selectedSlot t =
     (let score = (case relevance_score t of None \<Rightarrow> 0 | Some s \<Rightarrow> s)
      in if score < minS then False
         else let cat = trim (orEmpty (category t))
              in if selectedCategory \<noteq> ''all'' \<and> cat \<noteq> selectedCategory then False
                 else if selectedSlot \<noteq> ''all''
                         \<and> slotKeyForTrend P t groupBy \<noteq> selectedSlot then False
                 else True)"

definition filtered ::
  "platform \<Rightarrow> GroupBy \<Rightarrow> real \<Rightarrow> string \<Rightarrow> string \<Rightarrow> Trend list \<Rightarrow> Trend list" where
  "filtered P groupBy minScore selectedCategory selectedSlot nts =
     (let minS = clamp01 minScore
      in filter (keepTrend P groupBy minS selectedCategory selectedSlot) nts)"

text \<open>
  The page with a search box:
  \<^verbatim>\<open>
  const filtered = useMemo(() => {
    const min = clamp01(minScore);
    const q = searchQuery.toLowerCase().trim();
    return normalizedTrends.filter((t) => {
      if ((t.relevance_score ?? 0) < min) return false;
      const category = (t.category ?? "").trim();
      if (selectedCategory !== "all" && category !== selectedCategory) return false;
      if (selectedSlot !== "all" && slotKeyForTrend(t, groupBy) !== selectedSlot) return false;
      if (q) {
        const matches =
          (t.topic ?? "").toLowerCase().includes(q) ||
          (t.summary ?? "").toLowerCase().includes(q) ||
          (t.category ?? "").toLowerCase().includes(q);
        if (!matches) return false;
      }
      return true;
    });
  }, [groupBy, minScore, normalizedTrends, selectedCategory, selectedSlot, searchQuery]);
  \<close>
\<close>

definition keepTrendSearch ::
  "platform \<Rightarrow> GroupBy \<Rightarrow> real \<Rightarrow> string \<Rightarrow> string \<Rightarrow> string \<Rightarrow> Trend \<Rightarrow> bool" where
  "keepTrendSearch P groupBy minS selectedCategory selectedSlot q t =
     (if (case relevance_score t of None \<Rightarrow> 0 | Some s \<Rightarrow> s) < minS then False
      else let cat = trim (orEmpty (category t))
           in if selectedCategory \<noteq> ''all'' \<and> cat \<noteq> selectedCategory then False
              else if selectedSlot \<noteq> ''all''
                      \<and> slotKeyForTrend P t groupBy \<noteq> selectedSlot then False
              else if q \<noteq> [] then
                     (let matches =
                            (str_includes (toLowerCase (orEmpty (topic t))) q
                             \<or> str_includes (toLowerCase (orEmpty (summary t))) q
                             \<or> str_includes (toLowerCase (orEmpty (category t))) q)
                      in if \<not> matches then False else True)
              else True)"

definition filteredSearch ::
  "platform \<Rightarrow> GroupBy \<Rightarrow> real \<Rightarrow> string \<Rightarrow> string \<Rightarrow> string \<Rightarrow> Trend list \<Rightarrow> Trend list" where
  "filteredSearch P groupBy minScore selectedCategory selectedSlot searchQuery nts =
     (let minS = clamp01 minScore;
          q = trim (toLowerCase searchQuery)
      in filter (keepTrendSearch P groupBy minS selectedCategory selectedSlot q) nts)"

section \<open>Grouping and sorting\<close>

text \<open>
  A JavaScript \<^verbatim>\<open>Map\<close> keeps its keys in insertion order: an association list.
  \<open>pushTo k t m\<close> is
  \<^verbatim>\<open>if (!map.has(k)) map.set(k, []); map.get(k)!.push(t);\<close>
\<close>

fun pushTo :: "'k \<Rightarrow> 'a \<Rightarrow> ('k \<times> 'a list) list \<Rightarrow> ('k \<times> 'a list) list" where
  "pushTo k t [] = [(k, [t])]"
| "pushTo k t ((k', ts) # m) =
     (if k' = k then (k', ts @ [t]) # m else (k', ts) # pushTo k t m)"

text \<open>
  Both grouping loops of the pages have the shape
  \<^verbatim>\<open>for (const t of xs) { const k = f(t); if (!map.has(k)) map.set(k, []); map.get(k)!.push(t); }\<close>
  starting from an empty map.
\<close>

definition groupLoop :: "('a \<Rightarrow> 'k) \<Rightarrow> 'a list \<Rightarrow> ('k \<times> 'a list) list" where
  "groupLoop f xs = foldl (\<lambda>m t. pushTo (f t) t m) [] xs"

text \<open>
  \<^verbatim>\<open>Array.prototype.sort(cmp)\<close> is stable; with a consistent comparator its result is
  that of a stable insertion sort, where \<open>a\<close> stays before \<open>b\<close> unless \<open>cmp a b > 0\<close>.
\<close>

fun insertBy :: "('a \<Rightarrow> 'a \<Rightarrow> int) \<Rightarrow> 'a \<Rightarrow> 'a list \<Rightarrow> 'a list" where
  "insertBy cmp x [] = [x]"
| "insertBy cmp x (y # ys) = (if cmp x y \<le> 0 then x # y # ys else y # insertBy cmp x ys)"

fun sortBy :: "('a \<Rightarrow> 'a \<Rightarrow> int) \<Rightarrow> 'a list \<Rightarrow> 'a list" where
  "sortBy cmp [] = []"
| "sortBy cmp (x # xs) = insertBy cmp x (sortBy cmp xs)"

text \<open>
  \<^verbatim>\<open>
  const grouped = useMemo(() => {
    const map = new Map<string, Trend[]>();
    for (const t of filtered) {
      const key = slotKeyForTrend(t, groupBy);
      const label = slotLabelFromKey(key, groupBy);
      if (!map.has(label)) map.set(label, []);
      map.get(label)!.push(t);
    }
    const labels = Array.from(map.keys());
    labels.sort((a, b) => {
      const aUnknown = a.startsWith("Ohne");
      const bUnknown = b.startsWith("Ohne");
      if (aUnknown && !bUnknown) return 1;
      if (!aUnknown && bUnknown) return -1;
      if (groupBy === "week") {
        const an = Number(a.replace(/\D/g, "")) || 0;
        const bn = Number(b.replace(/\D/g, "")) || 0;
        return bn - an;
      }
      return b.localeCompare(a, "de-DE");
    });
    return labels.map((label) => ({ label, items: map.get(label) ?? [] }));
  }, [filtered, groupBy]);
  \<close>
\<close>

definition slotLabel :: "platform \<Rightarrow> GroupBy \<Rightarrow> Trend \<Rightarrow> string" where
  "slotLabel P groupBy t = slotLabelFromKey P (slotKeyForTrend P t groupBy) groupBy"

definition groupedMap :: "platform \<Rightarrow> GroupBy \<Rightarrow> Trend list \<Rightarrow> (string \<times> Trend list) list" where
  "groupedMap P groupBy fs = groupLoop (slotLabel P groupBy) fs"

definition labelCompare :: "platform \<Rightarrow> GroupBy \<Rightarrow> string \<Rightarrow> string \<Rightarrow> int" where
  "labelCompare P groupBy a b =
     (let aUnknown = prefix ''Ohne'' a;
          bUnknown = prefix ''Ohne'' b
      in if aUnknown \<and> \<not> bUnknown then 1
         else if \<not> aUnknown \<and> bUnknown then - 1
         else if groupBy = Week then
                (let an = digitsNumber a; bn = digitsNumber b in bn - an)
         else localeCompare P b a)"

definition grouped :: "platform \<Rightarrow> GroupBy \<Rightarrow> Trend list \<Rightarrow> (string \<times> Trend list) list" where
  "grouped P groupBy fs =
     (let m = groupedMap P groupBy fs;
          labels = sortBy (labelCompare P groupBy) (map fst m)
      in map (\<lambda>label. (label, (case map_of m label of Some ts \<Rightarrow> ts | None \<Rightarrow> []))) labels)"

section \<open>Export row selector\<close>

text \<open>
  \<^verbatim>\<open>
  const exportData = useMemo(() => {
    let rows = normalizedTrends;
    if (exportScope === "month" && exportMonth !== "all") {
      rows = rows.filter((t) => {
        const d = safeDate(t.published_date);
        return d ? monthKey(d) === exportMonth : false;
      });
    }
    if (exportScope === "week" && exportWeek !== "all") {
      rows = rows.filter((t) => String(t.week_number ?? "") === exportWeek);
    }
    return rows;
  }, [exportMonth, exportScope, exportWeek, normalizedTrends]);
  \<close>
\<close>

definition exportData ::
  "platform \<Rightarrow> ExportScope \<Rightarrow> string \<Rightarrow> string \<Rightarrow> Trend list \<Rightarrow> Trend list" where
  "exportData P exportScope exportMonth exportWeek nts =
     (let rows = nts;
          rows1 =
            (if exportScope = ScopeMonth \<and> exportMonth \<noteq> ''all'' then
               filter (\<lambda>t. case safeDate P (published_date t) of
                              Some d \<Rightarrow> monthKey P d = exportMonth
                            | None \<Rightarrow> False) rows
             else rows);
          rows2 =
            (if exportScope = ScopeWeek \<and> exportWeek \<noteq> ''all'' then
               filter (\<lambda>t. (case week_number t of None \<Rightarrow> [] | Some w \<Rightarrow> String_int w)
                            = exportWeek) rows1
             else rows1)
      in rows2)"

section \<open>Source clustering\<close>

text \<open>
  \<^verbatim>\<open>
  function extractDomain(url: string): string {
    try {
      return new URL(url).hostname.replace(/^www\./, "");
    } catch {
      return url.slice(0, 40) || "Unbekannte Quelle";
    }
  }
  \<close>
\<close>

definition extractDomain :: "platform \<Rightarrow> string \<Rightarrow> string" where
  "extractDomain P u =
     (case url_hostname P u of
        Some h \<Rightarrow> (if prefix ''www.'' h then drop 4 h else h)
      | None \<Rightarrow> (if take 40 u \<noteq> [] then take 40 u else ''Unbekannte Quelle''))"

text \<open>
  \<^verbatim>\<open>
  const bySource = new Map<string, Trend[]>();
  for (const t of items) {
    const domain =
      (t.url ?? "").trim() ? extractDomain((t.url ?? "").trim()) : "Unbekannte Quelle";
    if (!bySource.has(domain)) bySource.set(domain, []);
    bySource.get(domain)!.push(t);
  }
  const sortedSources = Array.from(bySource.entries()).sort(
    (a, b) => b[1].length - a[1].length
  );
  \<close>
\<close>

definition sourceDomain :: "platform \<Rightarrow> Trend \<Rightarrow> string" where
  "sourceDomain P t =
     (if trim (orEmpty (url t)) \<noteq> [] then extractDomain P (trim (orEmpty (url t)))
      else ''Unbekannte Quelle'')"

definition bySource :: "platform \<Rightarrow> Trend list \<Rightarrow> (string \<times> Trend list) list" where
  "bySource P items = groupLoop (sourceDomain P) items"

definition sortedSources :: "platform \<Rightarrow> Trend list \<Rightarrow> (string \<times> Trend list) list" where
  "sortedSources P items =
     sortBy (\<lambda>a b. int (length (snd b)) - int (length (snd a))) (bySource P items)"

section \<open>A reference platform\<close>

text \<open>
  The theorems below hold for every platform. Concrete evaluations use this one: the
  time zone is UTC; the date parser reads the date-only form \<^verbatim>\<open>YYYY-MM-DD\<close> of a real
  calendar day as UTC midnight (as ECMAScript prescribes for that form) and rejects
  every other string; a date prints as \<^verbatim>\<open>d.m.yyyy\<close> and a month with its German name;
  strings of digits, dots, spaces and unaccented letters of the same case compare by
  character code; a URL has a host name when it starts with \<^verbatim>\<open>http://\<close> or
  \<^verbatim>\<open>https://\<close> followed by a non-empty host.
\<close>

definition all_digits :: "string \<Rightarrow> bool" where
  "all_digits s = (s \<noteq> [] \<and> list_all is_digit s)"

definition decimal :: "string \<Rightarrow> int" where
  "decimal s = int (foldl (\<lambda>a c. 10 * a + digit_val c) 0 s)"

definition parse_date_only :: "string \<Rightarrow> int option" where
  "parse_date_only s =
     (if length s = 10 \<and> all_digits (take 4 s) \<and> s ! 4 = CHR ''-''
         \<and> all_digits (take 2 (drop 5 s)) \<and> s ! 7 = CHR ''-'' \<and> all_digits (drop 8 s)
      then (let y = decimal (take 4 s); m = decimal (take 2 (drop 5 s)); d = decimal (drop 8 s)
            in if civil_from_days (days_from_civil y m d) = (y, m, d)
               then Some (days_from_civil y m d * msPerDay) else None)
      else None)"

definition german_date :: "int \<Rightarrow> string" where
  "german_date t =
     String_int (getUTCDate t) @ ''.'' @ String_int (getUTCMonth t + 1) @ ''.''
       @ String_int (getUTCFullYear t)"

definition german_months :: "string list" where
  "german_months =
     [''Januar'', ''Februar'', [CHR ''M'', CHR 0xC3, CHR 0xA4, CHR ''r'', CHR ''z''], ''April'', ''Mai'', ''Juni'', ''Juli'', ''August'',
      ''September'', ''Oktober'', ''November'', ''Dezember'']"

definition german_month_label :: "string option \<Rightarrow> string option \<Rightarrow> string" where
  "german_month_label y m =
     (case (y, m) of
        (Some ys, Some ms) \<Rightarrow>
          (if all_digits ys \<and> all_digits ms \<and> 1 \<le> decimal ms \<and> decimal ms \<le> 12
              \<and> 100 \<le> decimal ys
           then german_months ! nat (decimal ms - 1) @ '' '' @ String_int (decimal ys)
           else ''Invalid Date'')
      | _ \<Rightarrow> ''Invalid Date'')"

fun compareCodes :: "string \<Rightarrow> string \<Rightarrow> int" where
  "compareCodes [] [] = 0"
| "compareCodes [] (y # ys) = - 1"
| "compareCodes (x # xs) [] = 1"
| "compareCodes (x # xs) (y # ys) =
     (if (of_char x :: nat) < of_char y then - 1
      else if (of_char y :: nat) < of_char x then 1
      else compareCodes xs ys)"

definition http_hostname :: "string \<Rightarrow> string option" where
  "http_hostname u =
     (let rest = (if prefix ''https://'' u then Some (drop 8 u)
                  else if prefix ''http://'' u then Some (drop 7 u)
                  else None)
      in case rest of
           None \<Rightarrow> None
         | Some r \<Rightarrow>
             (let h = takeWhile (\<lambda>c. c \<notin> set ''/?#:'') r
              in if h = [] then None else Some (toLowerCase h)))"

definition refPlatform :: platform where
  "refPlatform =
     \<lparr> date_parse = parse_date_only,
       local_tza = (\<lambda>t. 0),
       toLocaleDateString = german_date,
       month_label = german_month_label,
       localeCompare = compareCodes,
       url_hostname = http_hostname \<rparr>"

section \<open>The specification's vocabulary\<close>

text \<open>
  The specification speaks of blank or absent fields, of records that are dropped, and of
  the filter's predicates. These definitions follow its words; the theorems below compare
  them with the code.
\<close>

definition blank :: "string option \<Rightarrow> bool" where
  "blank s = (case s of None \<Rightarrow> True | Some x \<Rightarrow> list_all js_space x)"

definition dropped :: "Trend \<Rightarrow> bool" where
  "dropped t =
     (blank (topic t) \<and> blank (summary t) \<and> blank (spotify_impact t) \<and> blank (url t)
      \<and> blank (category t) \<and> blank (published_date t)
      \<and> relevance_score t = None
      \<and> \<not> (case week_number t of Some w \<Rightarrow> 0 < w | None \<Rightarrow> False))"

definition scoreOr0 :: "Trend \<Rightarrow> real" where
  "scoreOr0 t = (case relevance_score t of None \<Rightarrow> 0 | Some s \<Rightarrow> s)"

definition scoreFloor :: "real \<Rightarrow> Trend \<Rightarrow> bool" where
  "scoreFloor minScore t = (scoreOr0 t \<ge> clamp01 minScore)"

definition categoryMatch :: "string \<Rightarrow> Trend \<Rightarrow> bool" where
  "categoryMatch selectedCategory t =
     (selectedCategory = ''all'' \<or> trim (orEmpty (category t)) = selectedCategory)"

definition slotMatch :: "platform \<Rightarrow> GroupBy \<Rightarrow> string \<Rightarrow> Trend \<Rightarrow> bool" where
  "slotMatch P groupBy selectedSlot t =
     (selectedSlot = ''all'' \<or> slotKeyForTrend P t groupBy = selectedSlot)"

definition searchMatch :: "string \<Rightarrow> Trend \<Rightarrow> bool" where
  "searchMatch searchQuery t =
     (let q = trim (toLowerCase searchQuery)
      in q = [] \<or> str_includes (toLowerCase (orEmpty (topic t))) q
         \<or> str_includes (toLowerCase (orEmpty (summary t))) q
         \<or> str_includes (toLowerCase (orEmpty (category t))) q)"

text \<open>
  The specification's ISO week, on the day number \<open>k\<close> of a calendar date (days since
  1970-01-01): the weekday from Monday = 1 to Sunday = 7, the Thursday of the same week,
  the first day of that Thursday's year, and
  \<^verbatim>\<open>ceil(((shiftedDate - startOfShiftedYear)/86400000 + 1) / 7)\<close> on the UTC midnights of
  the two days. \<open>localDay\<close> is the day number of a date's local calendar date.
\<close>

definition localDay :: "platform \<Rightarrow> int \<Rightarrow> int" where
  "localDay P date = Day_of (date + local_tza P date)"

definition isoWeekday :: "int \<Rightarrow> int" where
  "isoWeekday k = (k + 3) mod 7 + 1"

definition thursdayOfWeek :: "int \<Rightarrow> int" where
  "thursdayOfWeek k = k + (4 - isoWeekday k)"

definition yearOfDay :: "int \<Rightarrow> int" where
  "yearOfDay k = fst (civil_from_days k)"

definition startOfYear :: "int \<Rightarrow> int" where
  "startOfYear y = days_from_civil y 1 1"

definition isoWeek :: "int \<Rightarrow> int" where
  "isoWeek k =
     (let shiftedDate = thursdayOfWeek k * msPerDay;
          startOfShiftedYear = startOfYear (yearOfDay (thursdayOfWeek k)) * msPerDay
      in \<lceil>(real_of_int (shiftedDate - startOfShiftedYear) / 86400000 + 1) / 7\<rceil>)"

text \<open>A record with every field absent, from which the examples are built.\<close>

definition blankTrend :: Trend where
  "blankTrend =
     \<lparr> ident = IdNum 0, topic = None, category = None, relevance_score = None,
       summary = None, spotify_impact = None, url = None, published_date = None,
       week_number = None \<rparr>"

section \<open>Score bands and the donut\<close>

text \<open>
  From \<^verbatim>\<open>kpis\<close>:
  \<^verbatim>\<open>
  const distHigh = filtered.filter((t) => (t.relevance_score ?? 0) >= 0.8).length;
  const distMid = filtered.filter(
    (t) => (t.relevance_score ?? 0) >= 0.6 && (t.relevance_score ?? 0) < 0.8
  ).length;
  const distLow = filtered.filter((t) => (t.relevance_score ?? 0) < 0.6).length;
  \<close>
\<close>

definition distHigh :: "Trend list \<Rightarrow> nat" where
  "distHigh fs = length (filter (\<lambda>t. scoreOr0 t \<ge> 0.8) fs)"

definition distMid :: "Trend list \<Rightarrow> nat" where
  "distMid fs = length (filter (\<lambda>t. scoreOr0 t \<ge> 0.6 \<and> scoreOr0 t < 0.8) fs)"

definition distLow :: "Trend list \<Rightarrow> nat" where
  "distLow fs = length (filter (\<lambda>t. scoreOr0 t < 0.6) fs)"

subsection \<open>Double-precision arithmetic\<close>

text \<open>
  A JavaScript number is an IEEE 754 binary64 value, and \<^verbatim>\<open>/\<close>, \<^verbatim>\<open>*\<close> and
  \<^verbatim>\<open>+\<close> return the exact result rounded to the nearest such value, ties to the even
  significand. A finite double is a rational number; \<open>fl q\<close> is the double nearest to
  \<open>q\<close>: \<open>q\<close> is scaled so that its integer part has 53 bits, rounded to an integer and
  scaled back. (Overflow and subnormal numbers are not modelled; the numbers here lie
  between 0 and 200.)
\<close>

definition roundHalfEven :: "rat \<Rightarrow> int" where
  "roundHalfEven q =
     (let f = \<lfloor>q\<rfloor>; r = q - of_int f
      in if r < 1 / 2 then f else if 1 / 2 < r then f + 1 else if even f then f else f + 1)"

text \<open>The exponent \<open>e\<close> with \<open>2^e \<le> q < 2^(e+1)\<close>, for positive \<open>q\<close>.\<close>

definition binade :: "rat \<Rightarrow> int" where
  "binade q =
     (let k = bitlen (fst (quotient_of q)) - bitlen (snd (quotient_of q))
      in if 2 powi k \<le> q then k else k - 1)"

definition fl :: "rat \<Rightarrow> rat" where
  "fl q = (if q = 0 then 0
           else let e = binade \<bar>q\<bar> - 52 in of_int (roundHalfEven (q / 2 powi e)) * 2 powi e)"

definition unitRoundoff :: rat where
  "unitRoundoff = 1 / 2 ^ 53"

subsection \<open>The donut\<close>

text \<open>
  \<^verbatim>\<open>
  const donutStyle = useMemo(() => {
    const total = Math.max(1, kpis.distHigh + kpis.distMid + kpis.distLow);
    const highPct = (kpis.distHigh / total) * 100;
    const midPct = (kpis.distMid / total) * 100;
    const lowPct = (kpis.distLow / total) * 100;
    return {
      total: kpis.distHigh + kpis.distMid + kpis.distLow,
      style: {
        background: `conic-gradient(
          hsl(0 72% 58%) 0% ${highPct}%,
          hsl(38 92% 50%) ${highPct}% ${highPct + midPct}%,
          hsl(141 73% 42%) ${highPct + midPct}% ${highPct + midPct + lowPct}%
        )`,
      } as React.CSSProperties,
    };
  }, [kpis.distHigh, kpis.distLow, kpis.distMid]);
  \<close>
  The counts are integers, which doubles hold exactly. The model returns the total (\<open>total_banded\<close>)
  and the numbers that the gradient interpolates: the three proportions, \<open>midStop\<close> for
  \<^verbatim>\<open>highPct + midPct\<close> and \<open>lowStop\<close> for \<^verbatim>\<open>highPct + midPct + lowPct\<close>.
\<close>

record Donut =
  total_banded :: nat
  highPct :: rat
  midPct :: rat
  lowPct :: rat
  midStop :: rat
  lowStop :: rat

definition donutStyle :: "nat \<Rightarrow> nat \<Rightarrow> nat \<Rightarrow> Donut" where
  "donutStyle dHigh dMid dLow =
     (let tot = max 1 (dHigh + dMid + dLow);
          hp = fl (fl (of_nat dHigh / of_nat tot) * 100);
          mp = fl (fl (of_nat dMid / of_nat tot) * 100);
          lp = fl (fl (of_nat dLow / of_nat tot) * 100)
      in \<lparr> total_banded = dHigh + dMid + dLow, highPct = hp, midPct = mp, lowPct = lp,
           midStop = fl (hp + mp), lowStop = fl (fl (hp + mp) + lp) \<rparr>)"

text \<open>The specification's proportion: a band's count over \<open>max(1, total_banded)\<close>, in
  percent, in exact arithmetic.\<close>

definition exactShare :: "nat \<Rightarrow> nat \<Rightarrow> rat" where
  "exactShare c totalBanded = of_nat c / of_nat (max 1 totalBanded) * 100"

section \<open>Auxiliary notions for the calendar\<close>

text \<open>
  Names for the parts of \<open>civil_from_days\<close>, used to prove that \<open>days_from_civil\<close>
  inverts it: within a 400-year era that starts on 1 March, \<open>leapless doe div 365\<close> is
  the year of the era of day \<open>doe\<close>, and \<open>yearStartOfEra y\<close> and \<open>yearEndOfEra y\<close> are
  the first and the last day of year \<open>y\<close> of the era.
\<close>

definition leapless :: "int \<Rightarrow> int" where
  "leapless doe = doe - doe div 1460 + doe div 36524 - doe div 146096"

definition yearStartOfEra :: "int \<Rightarrow> int" where
  "yearStartOfEra y = 365 * y + y div 4 - y div 100"

definition yearEndOfEra :: "int \<Rightarrow> int" where
  "yearEndOfEra y = (if y = 399 then 146096 else yearStartOfEra (y + 1) - 1)"

section \<open>Decimal numerals\<close>

lemma digit_char_cases:
  "d < 10 \<Longrightarrow> d = 0 \<or> d = 1 \<or> d = 2 \<or> d = 3 \<or> d = 4 \<or> d = 5 \<or> d = 6 \<or> d = 7 \<or> d = 8 \<or> d = (9::nat)"
  by arith

lemma digit_char_props:
  assumes "d < 10"
  shows "is_digit (digit_char d)" "digit_val (digit_char d) = d"
    "digit_char d \<noteq> CHR '':''" "digit_char d \<noteq> CHR ''-''" "digit_char d \<noteq> CHR ''n''"
    "digit_char d \<noteq> CHR ''a''"
  using digit_char_cases [OF assms]
  by (auto simp: digit_char_def is_digit_def digit_val_def)

lemma digit_char_inj: "a < 10 \<Longrightarrow> b < 10 \<Longrightarrow> digit_char a = digit_char b \<Longrightarrow> a = b"
  by (metis digit_char_props(2))

lemma digits_nonempty: "digits n \<noteq> []"
  by (subst digits.simps) simp

lemma digits_all: "c \<in> set (digits n) \<Longrightarrow> \<exists>d < 10. c = digit_char d"
proof (induction n rule: digits.induct)
  case (1 n)
  show ?case
  proof (cases "n < 10")
    case True
    then have "set (digits n) = {digit_char n}" by (subst digits.simps) simp
    then show ?thesis using "1.prems" True by blast
  next
    case False
    then have "set (digits n) = set (digits (n div 10)) \<union> {digit_char (n mod 10)}"
      by (subst digits.simps) simp
    moreover have "n mod 10 < 10" by simp
    ultimately show ?thesis
      using "1.prems" "1.IH" [OF False] by blast
  qed
qed

lemma digits_value: "foldl (\<lambda>a c. 10 * a + digit_val c) 0 (digits n) = n"
proof (induction n rule: digits.induct)
  case (1 n)
  show ?case
  proof (cases "n < 10")
    case True
    then show ?thesis by (subst digits.simps) (simp add: digit_char_props)
  next
    case False
    then show ?thesis
      using "1.IH" by (subst digits.simps) (simp add: digit_char_props)
  qed
qed

lemma digits_inj: "digits a = digits b \<Longrightarrow> a = b"
  by (metis digits_value)


lemma String_int_nonempty: "String_int i \<noteq> []"
  by (simp add: String_int_def digits_nonempty)

lemma hd_digits: "hd (digits n) \<noteq> CHR ''-''" "hd (digits n) \<noteq> CHR ''a''"
  using digits_all [of "hd (digits n)" n] digits_nonempty [of n]
  by (metis digit_char_props(4) hd_in_set, metis digit_char_props(6) hd_in_set)

lemma String_int_inj: "String_int a = String_int b \<Longrightarrow> a = b"
proof -
  assume e: "String_int a = String_int b"
  have neg: "digits m \<noteq> CHR ''-'' # s" for m s
    using hd_digits(1) [of m] by (metis list.sel(1))
  show ?thesis
  proof (cases "a < 0"; cases "b < 0")
    assume "a < 0" "b < 0"
    then have "digits (nat (- a)) = digits (nat (- b))" using e by (simp add: String_int_def)
    then have "nat (- a) = nat (- b)" by (rule digits_inj)
    then show ?thesis using \<open>a < 0\<close> \<open>b < 0\<close> by simp
  next
    assume "a < 0" "\<not> b < 0"
    then show ?thesis using e neg [of "nat b"] by (simp add: String_int_def) metis
  next
    assume "\<not> a < 0" "b < 0"
    then show ?thesis using e neg [of "nat a"] by (simp add: String_int_def)
  next
    assume "\<not> a < 0" "\<not> b < 0"
    then have "digits (nat a) = digits (nat b)" using e by (simp add: String_int_def)
    then have "nat a = nat b" by (rule digits_inj)
    then show ?thesis using \<open>\<not> a < 0\<close> \<open>\<not> b < 0\<close> by simp
  qed
qed

lemma String_int_not_all: "String_int i \<noteq> ''all''"
proof (cases "i < 0")
  case True
  then show ?thesis by (simp add: String_int_def)
next
  case False
  then show ?thesis using hd_digits(2) [of "nat i"] by (auto simp: String_int_def)
qed






lemma String_int_5: "String_int 5 = ''5''"
  by code_simp

section \<open>Insertion-ordered maps\<close>

lemma map_of_pushTo:
  "map_of (pushTo k t m) k' =
     (if k' = k then Some ((case map_of m k of None \<Rightarrow> [] | Some ts \<Rightarrow> ts) @ [t])
      else map_of m k')"
  by (induction m) auto

lemma keys_pushTo:
  "map fst (pushTo k t m) = (if k \<in> fst ` set m then map fst m else map fst m @ [k])"
proof (induction m)
  case Nil
  then show ?case by simp
next
  case (Cons e m)
  obtain k' ts where e: "e = (k', ts)" by (cases e)
  show ?case
  proof (cases "k' = k")
    case True
    then show ?thesis by (simp add: e)
  next
    case False
    then show ?thesis using Cons by (simp add: e)
  qed
qed

lemma groupLoop_snoc: "groupLoop f (xs @ [x]) = pushTo (f x) x (groupLoop f xs)"
  by (simp add: groupLoop_def)

lemma groupLoop_Nil: "groupLoop f [] = []"
  by (simp add: groupLoop_def)

lemma keys_groupLoop: "fst ` set (groupLoop f xs) = f ` set xs"
proof (induction xs rule: rev_induct)
  case Nil
  then show ?case by (simp add: groupLoop_Nil)
next
  case (snoc x xs)
  have "fst ` set (groupLoop f (xs @ [x])) = set (map fst (pushTo (f x) x (groupLoop f xs)))"
    by (simp add: groupLoop_snoc)
  also have "\<dots> = insert (f x) (fst ` set (groupLoop f xs))"
    unfolding keys_pushTo by auto
  finally show ?case using snoc by simp
qed

lemma distinct_groupLoop: "distinct (map fst (groupLoop f xs))"
proof (induction xs rule: rev_induct)
  case Nil
  then show ?case by (simp add: groupLoop_Nil)
next
  case (snoc x xs)
  then show ?case
    unfolding groupLoop_snoc keys_pushTo by simp
qed

lemma map_of_groupLoop:
  "map_of (groupLoop f xs) k =
     (if k \<in> f ` set xs then Some (filter (\<lambda>t. f t = k) xs) else None)"
proof (induction xs rule: rev_induct)
  case Nil
  then show ?case by (simp add: groupLoop_Nil)
next
  case (snoc x xs)
  show ?case
  proof (cases "k = f x")
    case True
    have "filter (\<lambda>t. f t = f x) xs = []" if "f x \<notin> f ` set xs"
    proof -
      have "\<forall>t\<in>set xs. f t \<noteq> f x" using that by (metis imageI)
      then show ?thesis by simp
    qed
    then show ?thesis
      using snoc True
      by (simp add: groupLoop_snoc map_of_pushTo)
  next
    case False
    then show ?thesis
      using snoc by (simp add: groupLoop_snoc map_of_pushTo)
  qed
qed

lemma entries_groupLoop:
  assumes a: "(k, ts) \<in> set (groupLoop f xs)"
  shows "ts = filter (\<lambda>t. f t = k) xs \<and> ts \<noteq> []"
proof -
  have "map_of (groupLoop f xs) k = Some ts"
    using a distinct_groupLoop [of f xs] by simp
  moreover have k: "k \<in> f ` set xs"
    using a keys_groupLoop [of f xs] by (metis fst_conv imageI)
  ultimately have "ts = filter (\<lambda>t. f t = k) xs"
    by (simp add: map_of_groupLoop)
  moreover have "filter (\<lambda>t. f t = k) xs \<noteq> []"
    using k by (auto simp: filter_empty_conv)
  ultimately show ?thesis by simp
qed

lemma mset_buckets:
  "distinct ks \<Longrightarrow> f ` set xs \<subseteq> set ks
   \<Longrightarrow> mset (concat (map (\<lambda>k. filter (\<lambda>t. f t = k) xs) ks)) = mset xs"
proof (induction ks arbitrary: xs)
  case Nil
  then show ?case by simp
next
  case (Cons k ks)
  let ?rest = "filter (\<lambda>t. f t \<noteq> k) xs"
  have same: "map (\<lambda>k'. filter (\<lambda>t. f t = k') xs) ks = map (\<lambda>k'. filter (\<lambda>t. f t = k') ?rest) ks"
  proof (rule map_cong [OF refl])
    fix k' assume "k' \<in> set ks"
    then have "k' \<noteq> k" using Cons.prems(1) by auto
    then show "filter (\<lambda>t. f t = k') xs = filter (\<lambda>t. f t = k') ?rest"
      by (auto intro: filter_cong)
  qed
  have "f ` set ?rest \<subseteq> set ks"
    using Cons.prems(2) by auto
  then have "mset (concat (map (\<lambda>k'. filter (\<lambda>t. f t = k') ?rest) ks)) = mset ?rest"
    using Cons.IH [of ?rest] Cons.prems(1) by simp
  then have "mset (concat (map (\<lambda>k'. filter (\<lambda>t. f t = k') xs) (k # ks)))
             = mset (filter (\<lambda>t. f t = k) xs) + mset ?rest"
    by (simp add: same)
  also have "\<dots> = mset xs"
    by (induction xs) simp_all
  finally show ?case .
qed

section \<open>Stable sorting\<close>

lemma set_insertBy: "set (insertBy cmp x ys) = insert x (set ys)"
  by (induction ys) auto

lemma mset_insertBy: "mset (insertBy cmp x ys) = add_mset x (mset ys)"
  by (induction ys) auto

lemma mset_sortBy: "mset (sortBy cmp xs) = mset xs"
  by (induction xs) (simp_all add: mset_insertBy)

lemma set_sortBy: "set (sortBy cmp xs) = set xs"
  by (induction xs) (simp_all add: set_insertBy)

lemma distinct_sortBy: "distinct (sortBy cmp xs) = distinct xs"
  using mset_eq_imp_distinct_iff [OF mset_sortBy [of cmp xs]] .

lemma sorted_insertBy:
  assumes tr: "\<And>a b c. cmp a b \<le> 0 \<Longrightarrow> cmp b c \<le> 0 \<Longrightarrow> cmp a c \<le> 0"
    and tot: "\<And>a b. 0 < cmp a b \<Longrightarrow> cmp b a \<le> 0"
  shows "sorted_wrt (\<lambda>a b. cmp a b \<le> 0) ys
         \<Longrightarrow> sorted_wrt (\<lambda>a b. cmp a b \<le> 0) (insertBy cmp x ys)"
proof (induction ys)
  case Nil
  then show ?case by simp
next
  case (Cons y ys)
  from Cons.prems have yz: "\<forall>z\<in>set ys. cmp y z \<le> 0"
    and s: "sorted_wrt (\<lambda>a b. cmp a b \<le> 0) ys" by simp_all
  show ?case
  proof (cases "cmp x y \<le> 0")
    case True
    have "\<forall>z\<in>set ys. cmp x z \<le> 0"
      using yz tr [OF True] by blast
    then show ?thesis using True yz s by simp
  next
    case False
    then have "cmp y x \<le> 0" using tot [of x y] by simp
    then show ?thesis using False yz Cons.IH [OF s] by (simp add: set_insertBy)
  qed
qed

lemma sorted_sortBy:
  assumes tr: "\<And>a b c. cmp a b \<le> 0 \<Longrightarrow> cmp b c \<le> 0 \<Longrightarrow> cmp a c \<le> 0"
    and tot: "\<And>a b. 0 < cmp a b \<Longrightarrow> cmp b a \<le> 0"
  shows "sorted_wrt (\<lambda>a b. cmp a b \<le> 0) (sortBy cmp xs)"
proof (induction xs)
  case Nil
  then show ?case by simp
next
  case (Cons x xs)
  then show ?case using sorted_insertBy [OF tr tot Cons] by simp
qed



section \<open>Strings\<close>

lemma trim_Nil_iff: "trim s = [] \<longleftrightarrow> list_all js_space s"
proof
  assume "trim s = []"
  then have "\<forall>x \<in> set (dropWhile js_space s). js_space x"
    by (simp add: trim_def dropWhile_eq_Nil_conv)
  then have "dropWhile js_space s = []"
    by (metis hd_dropWhile list.set_sel(1))
  then show "list_all js_space s"
    by (simp add: dropWhile_eq_Nil_conv list_all_iff)
next
  assume "list_all js_space s"
  then have "dropWhile js_space s = []"
    by (induction s) simp_all
  then show "trim s = []"
    unfolding trim_def by (auto dest: set_dropWhileD)
qed

lemma blank_iff: "blank s \<longleftrightarrow> trim (orEmpty s) = []"
proof (cases s)
  case None
  then show ?thesis unfolding blank_def orEmpty_def trim_def by simp
next
  case (Some a)
  then show ?thesis by (simp add: blank_def orEmpty_def trim_Nil_iff)
qed

section \<open>The normalizer\<close>

lemma hasContent_iff: "hasContent t \<longleftrightarrow> \<not> dropped t"
  by (auto simp: hasContent_def dropped_def blank_iff Let_def split: option.splits)

lemma withWeek_idem: "withWeek P (withWeek P t) = withWeek P t"
  by (simp add: withWeek_def Let_def split: option.splits)

text \<open>
  Claim C3. The normalizer sets \<open>week_number\<close> to \<open>getISOWeek\<close> of the parsed
  \<open>published_date\<close> exactly when \<open>week_number\<close> is absent and the date parses, and leaves
  every other field and every other record's week as given. It then drops a record if
  and only if topic, summary, spotify_impact, url, category and published_date are all
  blank or absent, relevance_score is absent, and the derived week number is not positive.
  The result lists the kept records in their original relative order.
\<close>

theorem normalizer_keeps_content_in_order:
  "normalizedTrends P trends =
     map (withWeek P) (filter (\<lambda>t. \<not> dropped (withWeek P t)) trends)
   \<and> (\<forall>t. withWeek P t =
          t\<lparr>week_number :=
               (case (week_number t, safeDate P (published_date t)) of
                  (None, Some d) \<Rightarrow> Some (getISOWeek P d)
                | _ \<Rightarrow> week_number t)\<rparr>)"
  by (auto simp: normalizedTrends_def filter_map comp_def hasContent_iff withWeek_def Let_def
      split: option.splits)

theorem normalizer_keeps_content_in_order_witness:
  "normalizedTrends refPlatform
     [blankTrend\<lparr>ident := IdNum 1, published_date := Some ''2026-02-10''\<rparr>,
      blankTrend\<lparr>ident := IdNum 2, topic := Some ''  ''\<rparr>,
      blankTrend\<lparr>ident := IdNum 3, week_number := Some 9, category := Some ''Audio''\<rparr>]
   = [blankTrend\<lparr>ident := IdNum 1, published_date := Some ''2026-02-10'', week_number := Some 7\<rparr>,
      blankTrend\<lparr>ident := IdNum 3, week_number := Some 9, category := Some ''Audio''\<rparr>]"
proof -
  let ?ts = "[blankTrend\<lparr>ident := IdNum 1, published_date := Some ''2026-02-10''\<rparr>,
      blankTrend\<lparr>ident := IdNum 2, topic := Some ''  ''\<rparr>,
      blankTrend\<lparr>ident := IdNum 3, week_number := Some 9, category := Some ''Audio''\<rparr>]"
  have "normalizedTrends refPlatform ?ts =
          map (withWeek refPlatform) (filter (\<lambda>t. \<not> dropped (withWeek refPlatform t)) ?ts)"
    using normalizer_keeps_content_in_order [of refPlatform ?ts] by blast
  also have "\<dots> = [blankTrend\<lparr>ident := IdNum 1, published_date := Some ''2026-02-10'', week_number := Some 7\<rparr>,
      blankTrend\<lparr>ident := IdNum 3, week_number := Some 9, category := Some ''Audio''\<rparr>]"
    by code_simp
  finally show ?thesis .
qed

text \<open>
  Claim C4. Normalization is idempotent: normalizing a normalized list returns it
  unchanged.
\<close>

theorem normalize_idempotent:
  "normalizedTrends P (normalizedTrends P trends) = normalizedTrends P trends"
proof -
  have "map (withWeek P) (filter hasContent (map (withWeek P) trends))
        = filter hasContent (map (withWeek P) trends)"
    by (rule map_idI) (auto simp: withWeek_idem)
  then show ?thesis
    by (simp add: normalizedTrends_def)
qed

theorem normalize_idempotent_witness:
  "normalizedTrends refPlatform
     (normalizedTrends refPlatform
        [blankTrend\<lparr>ident := IdNum 1, published_date := Some ''2026-02-10''\<rparr>, blankTrend])
   = [blankTrend\<lparr>ident := IdNum 1, published_date := Some ''2026-02-10'', week_number := Some 7\<rparr>]"
proof -
  have "normalizedTrends refPlatform
          [blankTrend\<lparr>ident := IdNum 1, published_date := Some ''2026-02-10''\<rparr>, blankTrend]
        = [blankTrend\<lparr>ident := IdNum 1, published_date := Some ''2026-02-10'', week_number := Some 7\<rparr>]"
    by code_simp
  then show ?thesis
    using normalize_idempotent [of refPlatform
        "[blankTrend\<lparr>ident := IdNum 1, published_date := Some ''2026-02-10''\<rparr>, blankTrend]"]
    by simp
qed

section \<open>The calendar functions are inverse\<close>

lemma leapless_mono: "d \<le> d' \<Longrightarrow> leapless d \<le> leapless d'"
proof -
  assume le: "d \<le> d'"
  have a: "d' div 1460 - d div 1460 \<le> d' - d" using le by arith
  have b: "d div 36524 \<le> d' div 36524" using le by (rule zdiv_mono1) simp
  have c: "d div 146096 = (d div 36524) div 4" "d' div 146096 = (d' div 36524) div 4"
    by (simp_all add: zdiv_zmult2_eq)
  have "(d' div 36524) div 4 - (d div 36524) div 4 \<le> d' div 36524 - d div 36524"
    using b by arith
  then show ?thesis unfolding leapless_def c using a by linarith
qed

lemma year_boundaries:
  "\<forall>y \<in> set [0..399]. leapless (yearStartOfEra y) div 365 = y
                        \<and> leapless (yearEndOfEra y) div 365 = y"
  by code_simp


lemma year_cover_aux:
  "n \<le> 399 \<Longrightarrow> 0 \<le> doe \<Longrightarrow> doe \<le> yearEndOfEra (int n)
   \<Longrightarrow> \<exists>y. 0 \<le> y \<and> y \<le> int n \<and> yearStartOfEra y \<le> doe \<and> doe \<le> yearEndOfEra y"
proof (induction n)
  case 0
  have "yearStartOfEra 0 = 0" by (simp add: yearStartOfEra_def)
  then show ?case using 0 by (intro exI [of _ 0]) simp
next
  case (Suc n)
  show ?case
  proof (cases "doe \<le> yearEndOfEra (int n)")
    case True
    then obtain y where "0 \<le> y" "y \<le> int n" "yearStartOfEra y \<le> doe" "doe \<le> yearEndOfEra y"
      using Suc by auto
    then show ?thesis by (intro exI [of _ y]) simp
  next
    case False
    have "int n \<noteq> 399" using Suc.prems(1) by simp
    then have "yearEndOfEra (int n) = yearStartOfEra (int n + 1) - 1"
      by (simp add: yearEndOfEra_def)
    then have "yearStartOfEra (int (Suc n)) \<le> doe" using False by (simp add: add.commute)
    then show ?thesis using Suc.prems by (intro exI [of _ "int (Suc n)"]) simp
  qed
qed

lemma year_cover:
  assumes "0 \<le> doe" "doe \<le> 146096"
  shows "\<exists>y. 0 \<le> y \<and> y \<le> 399 \<and> yearStartOfEra y \<le> doe \<and> doe \<le> yearEndOfEra y"
proof -
  have "yearEndOfEra (int 399) = 146096" by (simp add: yearEndOfEra_def)
  then show ?thesis using year_cover_aux [of 399 doe] assms by simp
qed

lemma year_length: "0 \<le> y \<Longrightarrow> y \<le> 399 \<Longrightarrow> yearEndOfEra y - yearStartOfEra y \<le> 365"
proof (cases "y = 399")
  case True
  then show ?thesis by (simp add: yearEndOfEra_def yearStartOfEra_def)
next
  case False
  have "(y + 1) div 4 - y div 4 \<le> 1" "0 \<le> (y + 1) div 100 - y div 100" by arith+
  then show ?thesis using False by (simp add: yearEndOfEra_def yearStartOfEra_def)
qed

lemma year_of_era:
  assumes "0 \<le> doe" "doe \<le> 146096"
  shows "0 \<le> leapless doe div 365" "leapless doe div 365 \<le> 399"
    "0 \<le> doe - yearStartOfEra (leapless doe div 365)"
    "doe - yearStartOfEra (leapless doe div 365) \<le> 365"
proof -
  obtain y where y: "0 \<le> y" "y \<le> 399" "yearStartOfEra y \<le> doe" "doe \<le> yearEndOfEra y"
    using year_cover [OF assms] by blast
  have "y \<in> set [0..399]" using y by simp
  then have b: "leapless (yearStartOfEra y) div 365 = y" "leapless (yearEndOfEra y) div 365 = y"
    using year_boundaries by blast+
  have "leapless (yearStartOfEra y) div 365 \<le> leapless doe div 365"
    by (rule zdiv_mono1 [OF leapless_mono [OF y(3)]]) simp
  moreover have "leapless doe div 365 \<le> leapless (yearEndOfEra y) div 365"
    by (rule zdiv_mono1 [OF leapless_mono [OF y(4)]]) simp
  ultimately have e: "leapless doe div 365 = y" using b by simp
  show "0 \<le> leapless doe div 365" "leapless doe div 365 \<le> 399"
    using y by (simp_all add: e)
  show "0 \<le> doe - yearStartOfEra (leapless doe div 365)" using y by (simp add: e)
  show "doe - yearStartOfEra (leapless doe div 365) \<le> 365"
    using y(4) year_length [OF y(1,2)] by (simp add: e)
qed

lemma month_index: "0 \<le> doy \<Longrightarrow> doy \<le> 365 \<Longrightarrow> 0 \<le> (5 * doy + 2) div 153 \<and> (5 * doy + 2) div 153 \<le> (11::int)"
  by arith

lemma days_from_civil_inverse: "days_from_civil (fst (civil_from_days z)) (fst (snd (civil_from_days z))) (snd (snd (civil_from_days z))) = z"
proof -
  define z1 where "z1 = z + 719468"
  define era where "era = z1 div 146097"
  define doe where "doe = z1 - era * 146097"
  define yoe where "yoe = leapless doe div 365"
  define doy where "doy = doe - yearStartOfEra yoe"
  define mp where "mp = (5 * doy + 2) div 153"
  define d where "d = doy - (153 * mp + 2) div 5 + 1"
  define m where "m = (if mp < 10 then mp + 3 else mp - 9)"
  define y where "y = yoe + era * 400 + (if m \<le> 2 then 1 else 0)"
  have c: "civil_from_days z = (y, m, d)"
    unfolding civil_from_days_def Let_def y_def m_def d_def mp_def doy_def yoe_def doe_def era_def
      z1_def leapless_def yearStartOfEra_def by (rule refl)
  have "doe = z1 mod 146097"
    unfolding doe_def era_def by (simp add: minus_div_mult_eq_mod)
  then have doe: "0 \<le> doe" "doe \<le> 146096"
    by simp_all
  have yoe: "0 \<le> yoe" "yoe \<le> 399" and doy: "0 \<le> doy" "doy \<le> 365"
    unfolding yoe_def doy_def using year_of_era [OF doe] by simp_all
  have mp: "0 \<le> mp" "mp \<le> 11" unfolding mp_def using month_index [OF doy] by simp_all
  have y1: "(if m \<le> 2 then y - 1 else y) = yoe + era * 400" by (simp add: y_def)
  have e: "(yoe + era * 400) div 400 = era" using yoe by simp
  have mi: "(if m > 2 then m - 3 else m + 9) = mp" using mp by (auto simp: m_def)
  have "days_from_civil y m d = era * 146097 + doe - 719468"
    unfolding days_from_civil_def Let_def y1 e mi
    by (simp add: d_def doy_def yearStartOfEra_def)
  also have "\<dots> = z" by (simp add: doe_def z1_def)
  finally show ?thesis by (simp add: c)
qed


section \<open>The ISO week\<close>

lemma days_from_civil_shift: "days_from_civil y m (d + j) = days_from_civil y m d + j"
  by (simp add: days_from_civil_def Let_def)

lemma Day_of_midnight: "Day_of (k * msPerDay) = k" "(k * msPerDay) mod msPerDay = 0"
  by (simp_all add: Day_of_def msPerDay_def)

lemma isoWeekday_getUTCDay:
  "(if (k + 4) mod 7 = 0 then 7 else (k + 4) mod 7) = isoWeekday k"
  unfolding isoWeekday_def by presburger

lemma thursday_is_thursday:
  "isoWeekday (thursdayOfWeek k) = 4"
  "thursdayOfWeek k - isoWeekday (thursdayOfWeek k) = k - isoWeekday k"
  "1 \<le> isoWeekday k" "isoWeekday k \<le> 7"
  unfolding thursdayOfWeek_def isoWeekday_def by presburger+

lemma Date_UTC_plain: "y \<notin> {0..99} \<Longrightarrow> Date_UTC y m d = days_from_civil y (m + 1) d * msPerDay"
  by (auto simp: Date_UTC_def Let_def)

lemma getISOWeek_isoWeek:
  assumes y: "getFullYear P date \<notin> {0..99}"
    and ty: "yearOfDay (thursdayOfWeek (localDay P date)) \<notin> {0..99}"
  shows "getISOWeek P date = isoWeek (localDay P date)"
proof -
  define k where "k = localDay P date"
  obtain yy mm dd where c: "civil_from_days k = (yy, mm, dd)" by (cases "civil_from_days k")
  have inv: "days_from_civil yy mm dd = k"
    using days_from_civil_inverse [of k] by (simp add: c)
  have g: "getFullYear P date = yy" "getMonth P date = mm - 1" "getDate P date = dd"
    by (simp_all add: getFullYear_def getMonth_def getDate_def getUTCFullYear_def
        getUTCMonth_def getUTCDate_def c k_def [unfolded localDay_def, symmetric])
  have d0: "Date_UTC (getFullYear P date) (getMonth P date) (getDate P date) = k * msPerDay"
    using y by (simp add: g Date_UTC_plain inv)
  have u: "getUTCDay (k * msPerDay) = (k + 4) mod 7" "getUTCDate (k * msPerDay) = dd"
    "getUTCFullYear (k * msPerDay) = yy" "getUTCMonth (k * msPerDay) + 1 = mm"
    by (simp_all add: getUTCDay_def getUTCDate_def getUTCFullYear_def getUTCMonth_def
        Day_of_midnight c)
  have sh: "setUTCDate (k * msPerDay) (dd + 4 - isoWeekday k) = thursdayOfWeek k * msPerDay"
  proof -
    have "days_from_civil yy mm (dd + (4 - isoWeekday k)) = k + (4 - isoWeekday k)"
      by (simp only: days_from_civil_shift inv)
    then show ?thesis
      by (simp add: setUTCDate_def u Day_of_midnight thursdayOfWeek_def add_diff_eq)
  qed
  have ys: "Date_UTC (getUTCFullYear (thursdayOfWeek k * msPerDay)) 0 1
            = startOfYear (yearOfDay (thursdayOfWeek k)) * msPerDay"
    using ty by (simp add: getUTCFullYear_def Day_of_midnight Date_UTC_plain startOfYear_def
        yearOfDay_def k_def)
  show ?thesis
    unfolding getISOWeek_def Let_def d0 u isoWeekday_getUTCDay sh ys
    by (simp add: isoWeek_def Let_def k_def)
qed

lemma getISOWeek_cong:
  "Day_of (d1 + local_tza P d1) = Day_of (d2 + local_tza Q d2)
   \<Longrightarrow> getISOWeek P d1 = getISOWeek Q d2"
  by (simp add: getISOWeek_def getFullYear_def getMonth_def getDate_def getUTCFullYear_def
      getUTCMonth_def getUTCDate_def)

lemma week7_days:
  "getISOWeek refPlatform 1770595200000 = 7"
  "getISOWeek refPlatform 1770681600000 = 7"
  "getISOWeek refPlatform 1770768000000 = 7"
  by code_simp+

lemma Day_of_refPlatform:
  "Day_of (1770595200000 + local_tza refPlatform 1770595200000) = 20493"
  "Day_of (1770681600000 + local_tza refPlatform 1770681600000) = 20494"
  "Day_of (1770768000000 + local_tza refPlatform 1770768000000) = 20495"
  by (simp_all add: refPlatform_def Day_of_def msPerDay_def)

lemma Day_of_range:
  assumes tz: "\<bar>tz\<bar> \<le> (86400000::int)"
  shows "Day_of (1770681600000 + tz) \<in> {20493, 20494, 20495}"
proof -
  have "20493 * 86400000 \<le> 1770681600000 + tz" "1770681600000 + tz < 20496 * 86400000"
    using tz by linarith+
  then have "20493 \<le> (1770681600000 + tz) div 86400000"
    "(1770681600000 + tz) div 86400000 < 20496"
    by (simp_all add: div_less_iff_less_mult less_eq_div_iff_mult_less_eq)
  then show ?thesis unfolding Day_of_def msPerDay_def by auto
qed

lemma week_7_of_2026_02_10:
  assumes parse: "date_parse P ''2026-02-10'' = Some 1770681600000"
    and tz: "\<bar>local_tza P 1770681600000\<bar> \<le> 86400000"
    and pd: "published_date t = Some ''2026-02-10''"
    and wn: "week_number t = None"
  shows "getISOWeek P 1770681600000 = 7
       \<and> normalizedTrends P [t] = [t\<lparr>week_number := Some 7\<rparr>]"
proof -
  have "Day_of (1770681600000 + local_tza P 1770681600000) \<in> {20493, 20494, 20495}"
    using tz by (rule Day_of_range)
  then have w: "getISOWeek P 1770681600000 = 7"
    using getISOWeek_cong [of 1770681600000 P 1770595200000 refPlatform]
      getISOWeek_cong [of 1770681600000 P 1770681600000 refPlatform]
      getISOWeek_cong [of 1770681600000 P 1770768000000 refPlatform]
    by (auto simp only: Day_of_refPlatform week7_days insert_iff empty_iff)
  have sd: "safeDate P (published_date t) = Some 1770681600000"
    by (simp add: safeDate_def pd parse)
  have ww: "withWeek P t = t\<lparr>week_number := Some 7\<rparr>"
    by (simp add: withWeek_def sd wn w)
  have "hasContent (t\<lparr>week_number := Some 7\<rparr>)"
    by (simp add: hasContent_def)
  then show ?thesis
    by (simp add: w normalizedTrends_def ww)
qed

lemma sunday_example:
  "date_parse refPlatform ''2021-01-03'' = Some 1609632000000"
  "localDay refPlatform 1609632000000 = 18630"
  "isoWeekday 18630 = 7"
  "thursdayOfWeek 18630 = 18627"
  "getFullYear refPlatform 1609632000000 = 2021"
  "yearOfDay 18627 = 2020"
  "isoWeek 18630 = 53"
  by code_simp+

text \<open>
  Claim C5. \<open>getISOWeek\<close> is the specification's algorithm: it takes the date's calendar
  day as a UTC day, shifts it to the Thursday of its week (Sunday counting as weekday 7,
  so the Thursday is in the same Monday-to-Sunday week), and returns
  \<open>ceil(((shiftedDate - startOfShiftedYear)/86400000 + 1) / 7)\<close>. (This holds when
  neither the date's year nor the Thursday's year is one of the years 0 to 99, which
  \<^verbatim>\<open>Date.UTC\<close> reads as 1900 to 1999.) A record with \<open>published_date\<close> "2026-02-10"
  and no \<open>week_number\<close> is normalized to week 7: the date-only string denotes UTC
  midnight, 1770681600000 ms, and \<open>getISOWeek\<close> returns 7 for it in every time zone (any
  offset of at most a day).
\<close>

theorem getISOWeek_algorithm_and_scenario_B:
  "(getFullYear P date \<notin> {0..99} \<and> yearOfDay (thursdayOfWeek (localDay P date)) \<notin> {0..99}
      \<longrightarrow> getISOWeek P date = isoWeek (localDay P date))
   \<and> isoWeekday k = (if getUTCDay (k * msPerDay) = 0 then 7 else getUTCDay (k * msPerDay))
   \<and> isoWeekday (thursdayOfWeek k) = 4
   \<and> thursdayOfWeek k - isoWeekday (thursdayOfWeek k) = k - isoWeekday k
   \<and> (date_parse P ''2026-02-10'' = Some 1770681600000
        \<and> \<bar>local_tza P 1770681600000\<bar> \<le> 86400000
        \<and> published_date t = Some ''2026-02-10'' \<and> week_number t = None
      \<longrightarrow> getISOWeek P 1770681600000 = 7
          \<and> normalizedTrends P [t] = [t\<lparr>week_number := Some 7\<rparr>])"
proof (intro conjI impI)
  show "getISOWeek P date = isoWeek (localDay P date)"
    if "getFullYear P date \<notin> {0..99} \<and> yearOfDay (thursdayOfWeek (localDay P date)) \<notin> {0..99}"
    using that getISOWeek_isoWeek by blast
  show "isoWeekday k = (if getUTCDay (k * msPerDay) = 0 then 7 else getUTCDay (k * msPerDay))"
    by (simp only: getUTCDay_def Day_of_midnight isoWeekday_getUTCDay)
  show "isoWeekday (thursdayOfWeek k) = 4"
    "thursdayOfWeek k - isoWeekday (thursdayOfWeek k) = k - isoWeekday k"
    by (rule thursday_is_thursday)+
  assume h: "date_parse P ''2026-02-10'' = Some 1770681600000
        \<and> \<bar>local_tza P 1770681600000\<bar> \<le> 86400000
        \<and> published_date t = Some ''2026-02-10'' \<and> week_number t = None"
  have b: "getISOWeek P 1770681600000 = 7
           \<and> normalizedTrends P [t] = [t\<lparr>week_number := Some 7\<rparr>]"
    by (rule week_7_of_2026_02_10
          [OF h [THEN conjunct1] h [THEN conjunct2, THEN conjunct1]
            h [THEN conjunct2, THEN conjunct2, THEN conjunct1]
            h [THEN conjunct2, THEN conjunct2, THEN conjunct2]])
  show "getISOWeek P 1770681600000 = 7" using b by (rule conjunct1)
  show "normalizedTrends P [t] = [t\<lparr>week_number := Some 7\<rparr>]" using b by (rule conjunct2)
qed

theorem getISOWeek_algorithm_and_scenario_B_witness:
  "getFullYear refPlatform 1609632000000 \<notin> {0..99}
   \<and> yearOfDay (thursdayOfWeek (localDay refPlatform 1609632000000)) \<notin> {0..99}
   \<and> date_parse refPlatform ''2021-01-03'' = Some 1609632000000
   \<and> isoWeekday (localDay refPlatform 1609632000000) = 7
   \<and> getISOWeek refPlatform 1609632000000 = 53
   \<and> date_parse refPlatform ''2026-02-10'' = Some 1770681600000
   \<and> \<bar>local_tza refPlatform 1770681600000\<bar> \<le> 86400000
   \<and> getISOWeek refPlatform 1770681600000 = 7
   \<and> normalizedTrends refPlatform [blankTrend\<lparr>published_date := Some ''2026-02-10''\<rparr>]
       = [blankTrend\<lparr>published_date := Some ''2026-02-10'', week_number := Some 7\<rparr>]"
proof -
  have y: "getFullYear refPlatform 1609632000000 \<notin> {0..99}"
    by (simp add: sunday_example)
  have ty: "yearOfDay (thursdayOfWeek (localDay refPlatform 1609632000000)) \<notin> {0..99}"
    by (simp add: sunday_example)
  have "getISOWeek refPlatform 1609632000000 = isoWeek (localDay refPlatform 1609632000000)"
    using getISOWeek_algorithm_and_scenario_B [of refPlatform 1609632000000] y ty by blast
  then have s: "getISOWeek refPlatform 1609632000000 = 53"
    by (simp add: sunday_example)
  have wd: "isoWeekday (localDay refPlatform 1609632000000) = 7"
    by (simp add: sunday_example)
  have p: "date_parse refPlatform ''2026-02-10'' = Some 1770681600000"
    by code_simp
  have z: "\<bar>local_tza refPlatform 1770681600000\<bar> \<le> 86400000"
    by (simp add: refPlatform_def)
  have d: "published_date (blankTrend\<lparr>published_date := Some ''2026-02-10''\<rparr>) = Some ''2026-02-10''"
    by simp
  have n: "week_number (blankTrend\<lparr>published_date := Some ''2026-02-10''\<rparr>) = None"
    by (simp add: blankTrend_def)
  have "getISOWeek refPlatform 1770681600000 = 7
        \<and> normalizedTrends refPlatform [blankTrend\<lparr>published_date := Some ''2026-02-10''\<rparr>]
            = [blankTrend\<lparr>published_date := Some ''2026-02-10''\<rparr>\<lparr>week_number := Some 7\<rparr>]"
    using getISOWeek_algorithm_and_scenario_B
      [where P = refPlatform and t = "blankTrend\<lparr>published_date := Some ''2026-02-10''\<rparr>"]
      p z d n by blast
  then show ?thesis using y ty s wd p z sunday_example(1) by simp
qed

section \<open>The filter engine\<close>

lemma keepTrend_iff:
  "keepTrend P g (clamp01 m) c s t \<longleftrightarrow> scoreFloor m t \<and> categoryMatch c t \<and> slotMatch P g s t"
  by (auto simp: keepTrend_def scoreFloor_def scoreOr0_def categoryMatch_def slotMatch_def Let_def)

lemma keepTrendSearch_iff:
  "keepTrendSearch P g (clamp01 m) c s (trim (toLowerCase q)) t \<longleftrightarrow>
     scoreFloor m t \<and> categoryMatch c t \<and> slotMatch P g s t \<and> searchMatch q t"
  by (auto simp: keepTrendSearch_def scoreFloor_def scoreOr0_def categoryMatch_def slotMatch_def
        searchMatch_def Let_def)

lemma clamp01_mono: "a \<le> b \<Longrightarrow> clamp01 a \<le> clamp01 b"
  by (simp add: clamp01_def max_def min_def)

lemma scoreFloor_antimono: "m1 \<le> m2 \<Longrightarrow> scoreFloor m2 t \<Longrightarrow> scoreFloor m1 t"
  using clamp01_mono [of m1 m2] by (simp add: scoreFloor_def)

lemma length_filter_mono:
  "(\<And>x. x \<in> set xs \<Longrightarrow> p x \<Longrightarrow> q x) \<Longrightarrow> length (filter p xs) \<le> length (filter q xs)"
  by (induction xs) auto

text \<open>
  Claim C6. The filter is monotone in the score floor: with the other parameters fixed
  and \<open>m1 \<le> m2\<close>, the filter keeps at most as many records with floor \<open>m2\<close> as with
  floor \<open>m1\<close> (on the page without and on the page with a search box). Against the floor
  alone, a record is kept iff \<open>(relevance_score ?? 0) \<ge> clamp01 minScore\<close>.
\<close>

theorem filter_monotone_in_minScore:
  assumes "m1 \<le> m2"
  shows "length (filtered P g m2 c s R) \<le> length (filtered P g m1 c s R)
       \<and> length (filteredSearch P g m2 c s q R) \<le> length (filteredSearch P g m1 c s q R)
       \<and> filtered P g m1 ''all'' ''all'' R = filter (\<lambda>t. scoreOr0 t \<ge> clamp01 m1) R"
proof (intro conjI)
  show "length (filtered P g m2 c s R) \<le> length (filtered P g m1 c s R)"
    unfolding filtered_def Let_def
    by (rule length_filter_mono) (auto simp: keepTrend_iff intro: scoreFloor_antimono [OF assms])
  show "length (filteredSearch P g m2 c s q R) \<le> length (filteredSearch P g m1 c s q R)"
    unfolding filteredSearch_def Let_def
    by (rule length_filter_mono)
      (auto simp: keepTrendSearch_iff intro: scoreFloor_antimono [OF assms])
  show "filtered P g m1 ''all'' ''all'' R = filter (\<lambda>t. scoreOr0 t \<ge> clamp01 m1) R"
    unfolding filtered_def Let_def
    by (rule filter_cong)
      (simp_all add: keepTrend_iff scoreFloor_def categoryMatch_def slotMatch_def)
qed

theorem filter_monotone_in_minScore_witness:
  "(0::real) \<le> 0.6
   \<and> length (filtered refPlatform Week 0.6 ''all'' ''all''
        [blankTrend\<lparr>relevance_score := Some 0.9, category := Some ''Spotify''\<rparr>,
         blankTrend\<lparr>relevance_score := Some 0.5, category := Some ''Marketing''\<rparr>,
         blankTrend\<lparr>ident := IdNum 3\<rparr>]) = 1
   \<and> length (filtered refPlatform Week 0 ''all'' ''all''
        [blankTrend\<lparr>relevance_score := Some 0.9, category := Some ''Spotify''\<rparr>,
         blankTrend\<lparr>relevance_score := Some 0.5, category := Some ''Marketing''\<rparr>,
         blankTrend\<lparr>ident := IdNum 3\<rparr>]) = 3"
proof -
  let ?R = "[blankTrend\<lparr>relevance_score := Some 0.9, category := Some ''Spotify''\<rparr>,
         blankTrend\<lparr>relevance_score := Some 0.5, category := Some ''Marketing''\<rparr>,
         blankTrend\<lparr>ident := IdNum 3\<rparr>]"
  have le: "(0::real) \<le> 0.6" by simp
  have "length (filtered refPlatform Week 0.6 ''all'' ''all'' ?R)
          \<le> length (filtered refPlatform Week 0 ''all'' ''all'' ?R)"
    using filter_monotone_in_minScore [OF le, of refPlatform Week "''all''" "''all''" ?R]
    by blast
  moreover have "length (filtered refPlatform Week 0.6 ''all'' ''all'' ?R) = 1"
    by code_simp
  moreover have "length (filtered refPlatform Week 0 ''all'' ''all'' ?R) = 3"
    by code_simp
  ultimately show ?thesis
    by simp
qed

text \<open>
  Claim C10. The filter engine never reorders records: for every parameter combination
  its output is the input with exactly the records removed that fail one of the active
  predicates (score floor, category, time bucket, and on the page with a search box the
  search query), so it is an order-preserving subsequence of the input.
\<close>

theorem filter_is_subsequence:
  "filtered P g m c s R =
     filter (\<lambda>t. scoreFloor m t \<and> categoryMatch c t \<and> slotMatch P g s t) R
   \<and> subseq (filtered P g m c s R) R
   \<and> filteredSearch P g m c s q R =
       filter (\<lambda>t. scoreFloor m t \<and> categoryMatch c t \<and> slotMatch P g s t \<and> searchMatch q t) R
   \<and> subseq (filteredSearch P g m c s q R) R"
proof -
  have 1: "keepTrend P g (clamp01 m) c s =
             (\<lambda>t. scoreFloor m t \<and> categoryMatch c t \<and> slotMatch P g s t)"
    by (rule ext) (rule keepTrend_iff)
  have 2: "keepTrendSearch P g (clamp01 m) c s (trim (toLowerCase q)) =
             (\<lambda>t. scoreFloor m t \<and> categoryMatch c t \<and> slotMatch P g s t \<and> searchMatch q t)"
    by (rule ext) (rule keepTrendSearch_iff)
  show ?thesis
    unfolding filtered_def filteredSearch_def Let_def 1 2 by simp
qed

theorem filter_is_subsequence_witness:
  "filteredSearch refPlatform Week 0.6 ''Audio'' ''week:7'' '' Pod ''
     [blankTrend\<lparr>ident := IdNum 1, relevance_score := Some 0.9, category := Some ''Audio'',
                 week_number := Some 7, topic := Some ''New podcast charts''\<rparr>,
      blankTrend\<lparr>ident := IdNum 2, relevance_score := Some 0.9, category := Some ''Audio'',
                 week_number := Some 6, topic := Some ''Podcast ads''\<rparr>,
      blankTrend\<lparr>ident := IdNum 3, relevance_score := Some 0.7, category := Some '' Audio '',
                 week_number := Some 7, summary := Some ''A PODCAST story''\<rparr>,
      blankTrend\<lparr>ident := IdNum 4, relevance_score := Some 0.7, category := Some ''Audio'',
                 week_number := Some 7, topic := Some ''Playlists''\<rparr>,
      blankTrend\<lparr>ident := IdNum 5, relevance_score := Some 0.5, category := Some ''Audio'',
                 week_number := Some 7, topic := Some ''Podcast''\<rparr>]
   = [blankTrend\<lparr>ident := IdNum 1, relevance_score := Some 0.9, category := Some ''Audio'',
                 week_number := Some 7, topic := Some ''New podcast charts''\<rparr>,
      blankTrend\<lparr>ident := IdNum 3, relevance_score := Some 0.7, category := Some '' Audio '',
                 week_number := Some 7, summary := Some ''A PODCAST story''\<rparr>]"
proof -
  let ?R = "[blankTrend\<lparr>ident := IdNum 1, relevance_score := Some 0.9, category := Some ''Audio'',
                 week_number := Some 7, topic := Some ''New podcast charts''\<rparr>,
      blankTrend\<lparr>ident := IdNum 2, relevance_score := Some 0.9, category := Some ''Audio'',
                 week_number := Some 6, topic := Some ''Podcast ads''\<rparr>,
      blankTrend\<lparr>ident := IdNum 3, relevance_score := Some 0.7, category := Some '' Audio '',
                 week_number := Some 7, summary := Some ''A PODCAST story''\<rparr>,
      blankTrend\<lparr>ident := IdNum 4, relevance_score := Some 0.7, category := Some ''Audio'',
                 week_number := Some 7, topic := Some ''Playlists''\<rparr>,
      blankTrend\<lparr>ident := IdNum 5, relevance_score := Some 0.5, category := Some ''Audio'',
                 week_number := Some 7, topic := Some ''Podcast''\<rparr>]"
  have "filteredSearch refPlatform Week 0.6 ''Audio'' ''week:7'' '' Pod '' ?R
        = filter (\<lambda>t. scoreFloor 0.6 t \<and> categoryMatch ''Audio'' t
                      \<and> slotMatch refPlatform Week ''week:7'' t \<and> searchMatch '' Pod '' t) ?R"
    using filter_is_subsequence [of refPlatform Week "0.6" "''Audio''" "''week:7''" ?R "'' Pod ''"]
    by blast
  also have "\<dots> = [blankTrend\<lparr>ident := IdNum 1, relevance_score := Some 0.9, category := Some ''Audio'',
                 week_number := Some 7, topic := Some ''New podcast charts''\<rparr>,
      blankTrend\<lparr>ident := IdNum 3, relevance_score := Some 0.7, category := Some '' Audio '',
                 week_number := Some 7, summary := Some ''A PODCAST story''\<rparr>]"
    by code_simp
  finally show ?thesis .
qed

section \<open>Grouping\<close>

lemma grouped_eq:
  "grouped P g fs =
     map (\<lambda>l. (l, filter (\<lambda>t. slotLabel P g t = l) fs))
       (sortBy (labelCompare P g) (map fst (groupLoop (slotLabel P g) fs)))"
proof -
  have "(case map_of (groupLoop (slotLabel P g) fs) l of Some ts \<Rightarrow> ts | None \<Rightarrow> [])
        = filter (\<lambda>t. slotLabel P g t = l) fs"
    if "l \<in> set (map fst (groupLoop (slotLabel P g) fs))" for l
    using that keys_groupLoop [of "slotLabel P g" fs] by (simp add: map_of_groupLoop)
  then show ?thesis
    unfolding grouped_def groupedMap_def Let_def
    by (intro map_cong refl) (simp add: set_sortBy)
qed

lemma grouped_labels:
  "distinct (map fst (grouped P g fs))"
  "set (map fst (grouped P g fs)) = slotLabel P g ` set fs"
  using distinct_groupLoop [of "slotLabel P g" fs] keys_groupLoop [of "slotLabel P g" fs]
  by (simp_all add: grouped_eq comp_def distinct_sortBy set_sortBy)

text \<open>
  Claim C2. For every filtered list and grouping mode, the buckets partition the list:
  the concatenation of their items has exactly the records of the list (none lost, none
  duplicated), the bucket labels are distinct, and each bucket holds exactly the records
  of its label in the order they have in the list.
\<close>

theorem grouped_partitions_filtered:
  "mset (concat (map snd (grouped P g fs))) = mset fs
   \<and> distinct (map fst (grouped P g fs))
   \<and> (\<forall>(label, items) \<in> set (grouped P g fs).
         items = filter (\<lambda>t. slotLabel P g t = label) fs \<and> items \<noteq> [] \<and> subseq items fs)"
proof (intro conjI)
  let ?ls = "sortBy (labelCompare P g) (map fst (groupLoop (slotLabel P g) fs))"
  have d: "distinct ?ls"
    using distinct_groupLoop [of "slotLabel P g" fs] by (simp add: distinct_sortBy)
  have k: "set ?ls = slotLabel P g ` set fs"
    using keys_groupLoop [of "slotLabel P g" fs] by (simp add: set_sortBy)
  have "concat (map snd (grouped P g fs))
        = concat (map (\<lambda>l. filter (\<lambda>t. slotLabel P g t = l) fs) ?ls)"
    by (simp add: grouped_eq comp_def)
  then show "mset (concat (map snd (grouped P g fs))) = mset fs"
    using mset_buckets [OF d, of "slotLabel P g" fs] k by simp
  show "distinct (map fst (grouped P g fs))"
    by (rule grouped_labels)
  show "\<forall>(label, items) \<in> set (grouped P g fs).
         items = filter (\<lambda>t. slotLabel P g t = label) fs \<and> items \<noteq> [] \<and> subseq items fs"
  proof (clarify, intro conjI)
    fix label items
    assume "(label, items) \<in> set (grouped P g fs)"
    then have l: "label \<in> set ?ls" and i: "items = filter (\<lambda>t. slotLabel P g t = label) fs"
      by (auto simp: grouped_eq)
    show "items = filter (\<lambda>t. slotLabel P g t = label) fs" by (rule i)
    show "items \<noteq> []" using l k i by (auto simp: filter_empty_conv)
    show "subseq items fs" using i by simp
  qed
qed

theorem grouped_partitions_filtered_witness:
  "grouped refPlatform Week
     [blankTrend\<lparr>ident := IdNum 1, week_number := Some 5\<rparr>,
      blankTrend\<lparr>ident := IdNum 2\<rparr>,
      blankTrend\<lparr>ident := IdNum 3, week_number := Some 5\<rparr>]
   = [(''KW 5'', [blankTrend\<lparr>ident := IdNum 1, week_number := Some 5\<rparr>,
                  blankTrend\<lparr>ident := IdNum 3, week_number := Some 5\<rparr>]),
      (''Ohne KW'', [blankTrend\<lparr>ident := IdNum 2\<rparr>])]
   \<and> mset (concat (map snd (grouped refPlatform Week
         [blankTrend\<lparr>ident := IdNum 1, week_number := Some 5\<rparr>,
          blankTrend\<lparr>ident := IdNum 2\<rparr>,
          blankTrend\<lparr>ident := IdNum 3, week_number := Some 5\<rparr>])))
     = mset [blankTrend\<lparr>ident := IdNum 1, week_number := Some 5\<rparr>,
             blankTrend\<lparr>ident := IdNum 2\<rparr>,
             blankTrend\<lparr>ident := IdNum 3, week_number := Some 5\<rparr>]"
proof -
  let ?R = "[blankTrend\<lparr>ident := IdNum 1, week_number := Some 5\<rparr>,
      blankTrend\<lparr>ident := IdNum 2\<rparr>,
      blankTrend\<lparr>ident := IdNum 3, week_number := Some 5\<rparr>]"
  have "grouped refPlatform Week ?R
        = [(''KW 5'', [blankTrend\<lparr>ident := IdNum 1, week_number := Some 5\<rparr>,
                  blankTrend\<lparr>ident := IdNum 3, week_number := Some 5\<rparr>]),
           (''Ohne KW'', [blankTrend\<lparr>ident := IdNum 2\<rparr>])]"
    by code_simp
  moreover have "mset (concat (map snd (grouped refPlatform Week ?R))) = mset ?R"
    using grouped_partitions_filtered [of refPlatform Week ?R] by blast
  ultimately show ?thesis by blast
qed

section \<open>Bucket keys and bucket order\<close>





















section \<open>Export row selector\<close>

lemma exportData_week:
  "ew \<noteq> ''all'' \<Longrightarrow> exportData P ScopeWeek em ew rows =
     filter (\<lambda>t. (case week_number t of None \<Rightarrow> [] | Some w \<Rightarrow> String_int w) = ew) rows"
  by (simp add: exportData_def)

text \<open>
  Claim C8. The export subset is computed from the normalized records and the export
  parameters alone: scope \<open>all\<close> selects every record; scope \<open>week\<close> with target week
  \<open>n\<close> selects exactly the records whose week number is \<open>n\<close>; scope \<open>month\<close> with a
  target month key selects exactly the records whose date parses and has that month key;
  the selected records keep their relative order. With target week 5 and records of weeks
  4, 5, 5, 6 the selection is the two week-5 records, in order.
\<close>

theorem export_selects_target:
  "exportData P ScopeAll em ew rows = rows
   \<and> exportData P ScopeWeek em (String_int n) rows = filter (\<lambda>t. week_number t = Some n) rows
   \<and> (em \<noteq> ''all'' \<longrightarrow>
        exportData P ScopeMonth em ew rows =
          filter (\<lambda>t. case safeDate P (published_date t) of
                         Some d \<Rightarrow> monthKey P d = em | None \<Rightarrow> False) rows)
   \<and> (week_number a = Some 4 \<and> week_number b = Some 5 \<and> week_number c = Some 5
        \<and> week_number d = Some 6 \<longrightarrow>
        exportData P ScopeWeek em ''5'' [a, b, c, d] = [b, c])"
proof (intro conjI impI)
  show "exportData P ScopeAll em ew rows = rows"
    by (simp add: exportData_def)
  have sel: "((case week_number t of None \<Rightarrow> [] | Some w \<Rightarrow> String_int w) = String_int k)
             = (week_number t = Some k)" for t k
    using String_int_nonempty [of k] String_int_inj [of _ k]
    by (cases "week_number t") auto
  show w: "exportData P ScopeWeek em (String_int k) rows = filter (\<lambda>t. week_number t = Some k) rows" for k rows
    by (simp add: exportData_week String_int_not_all sel)
  show "exportData P ScopeMonth em ew rows =
          filter (\<lambda>t. case safeDate P (published_date t) of
                         Some d \<Rightarrow> monthKey P d = em | None \<Rightarrow> False) rows"
    if "em \<noteq> ''all''"
    using that by (simp add: exportData_def)
  show "exportData P ScopeWeek em ''5'' [a, b, c, d] = [b, c]"
    if "week_number a = Some 4 \<and> week_number b = Some 5 \<and> week_number c = Some 5
        \<and> week_number d = Some 6"
    using that w [of 5 "[a, b, c, d]"] by (simp add: String_int_5)
qed


theorem export_selects_target_witness:
  "exportData refPlatform ScopeWeek ''all'' ''5''
     [blankTrend\<lparr>ident := IdNum 1, week_number := Some 4\<rparr>,
      blankTrend\<lparr>ident := IdNum 2, week_number := Some 5\<rparr>,
      blankTrend\<lparr>ident := IdNum 3, week_number := Some 5\<rparr>,
      blankTrend\<lparr>ident := IdNum 4, week_number := Some 6\<rparr>]
   = [blankTrend\<lparr>ident := IdNum 2, week_number := Some 5\<rparr>,
      blankTrend\<lparr>ident := IdNum 3, week_number := Some 5\<rparr>]
   \<and> ''2026-02'' \<noteq> ''all''
   \<and> exportData refPlatform ScopeMonth ''2026-02'' ''all''
        [blankTrend\<lparr>ident := IdNum 1, published_date := Some ''2026-01-31''\<rparr>,
         blankTrend\<lparr>ident := IdNum 2, published_date := Some ''2026-02-10''\<rparr>,
         blankTrend\<lparr>ident := IdNum 3\<rparr>]
      = [blankTrend\<lparr>ident := IdNum 2, published_date := Some ''2026-02-10''\<rparr>]"
proof -
  let ?M = "[blankTrend\<lparr>ident := IdNum 1, published_date := Some ''2026-01-31''\<rparr>,
         blankTrend\<lparr>ident := IdNum 2, published_date := Some ''2026-02-10''\<rparr>,
         blankTrend\<lparr>ident := IdNum 3\<rparr>]"
  have w: "exportData refPlatform ScopeWeek ''all'' ''5''
     [blankTrend\<lparr>ident := IdNum 1, week_number := Some 4\<rparr>,
      blankTrend\<lparr>ident := IdNum 2, week_number := Some 5\<rparr>,
      blankTrend\<lparr>ident := IdNum 3, week_number := Some 5\<rparr>,
      blankTrend\<lparr>ident := IdNum 4, week_number := Some 6\<rparr>]
   = [blankTrend\<lparr>ident := IdNum 2, week_number := Some 5\<rparr>,
      blankTrend\<lparr>ident := IdNum 3, week_number := Some 5\<rparr>]"
    using export_selects_target
      [where P = refPlatform and em = "''all''"
         and a = "blankTrend\<lparr>ident := IdNum 1, week_number := Some 4\<rparr>"
         and b = "blankTrend\<lparr>ident := IdNum 2, week_number := Some 5\<rparr>"
         and c = "blankTrend\<lparr>ident := IdNum 3, week_number := Some 5\<rparr>"
         and d = "blankTrend\<lparr>ident := IdNum 4, week_number := Some 6\<rparr>"]
    by simp
  have ne: "''2026-02'' \<noteq> ''all''" by simp
  have "exportData refPlatform ScopeMonth ''2026-02'' ''all'' ?M =
          filter (\<lambda>t. case safeDate refPlatform (published_date t) of
                         Some d \<Rightarrow> monthKey refPlatform d = ''2026-02'' | None \<Rightarrow> False) ?M"
    using export_selects_target [where P = refPlatform and em = "''2026-02''" and ew = "''all''"
        and rows = ?M] ne by blast
  also have "\<dots> = [blankTrend\<lparr>ident := IdNum 2, published_date := Some ''2026-02-10''\<rparr>]"
    by code_simp
  finally show ?thesis using w ne by blast
qed

section \<open>Source clustering\<close>

lemma sortedSources_eq:
  "sortedSources P items =
     sortBy (\<lambda>a b. int (length (snd b)) - int (length (snd a))) (groupLoop (sourceDomain P) items)"
  by (simp add: sortedSources_def bySource_def)

lemma sortedSources_set: "set (sortedSources P items) = set (groupLoop (sourceDomain P) items)"
  by (simp add: sortedSources_eq set_sortBy)

lemma sortedSources_by_count:
  "sorted_wrt (\<lambda>a b. length (snd b) \<le> length (snd a)) (sortedSources P items)"
proof -
  let ?cmp = "\<lambda>a b :: string \<times> Trend list. int (length (snd b)) - int (length (snd a))"
  have "sorted_wrt (\<lambda>a b. ?cmp a b \<le> 0) (sortBy ?cmp (groupLoop (sourceDomain P) items))"
    by (rule sorted_sortBy) simp_all
  then show ?thesis
    by (simp add: sortedSources_eq)
qed

lemma sourceDomain_cases:
  "(blank (url t) \<longrightarrow> sourceDomain P t = ''Unbekannte Quelle'')
   \<and> (\<not> blank (url t) \<longrightarrow>
        sourceDomain P t =
          (case url_hostname P (trim (orEmpty (url t))) of
             Some h \<Rightarrow> if prefix ''www.'' h then drop 4 h else h
           | None \<Rightarrow> take 40 (trim (orEmpty (url t)))))"
  by (auto simp: sourceDomain_def extractDomain_def blank_iff split: option.splits)

lemma mset_concat_insertBy:
  "mset (concat (map f (insertBy cmp x ys))) = mset (f x) + mset (concat (map f ys))"
  by (induction ys) simp_all

lemma mset_concat_sortBy:
  "mset (concat (map f (sortBy cmp xs))) = mset (concat (map f xs))"
  by (induction xs) (simp_all add: mset_concat_insertBy)

lemma distinct_map_sortBy: "distinct (map f (sortBy cmp xs)) = distinct (map f xs)"
proof -
  have "mset (map f (sortBy cmp xs)) = mset (map f xs)"
    by (simp add: mset_sortBy)
  then show ?thesis by (rule mset_eq_imp_distinct_iff)
qed

lemma groupLoop_values:
  "map snd (groupLoop f xs) = map (\<lambda>k. filter (\<lambda>t. f t = k) xs) (map fst (groupLoop f xs))"
proof -
  have "snd e = filter (\<lambda>t. f t = fst e) xs" if "e \<in> set (groupLoop f xs)" for e
    using entries_groupLoop [of "fst e" "snd e" f xs] that by simp
  then show ?thesis by (simp add: comp_def)
qed

text \<open>
  Claim C7, as the code has it. A record whose URL is absent or blank belongs to the
  cluster "Unbekannte Quelle". Otherwise its domain is the host name of the trimmed URL
  without a leading "www." when the URL parses, and the first 40 characters of the
  trimmed URL text when it does not. The clusters have distinct domains, each holds
  exactly the records of its domain in their order, together they hold every record
  once, and they are ordered by descending member count.
\<close>

theorem source_clusters:
  "(blank (url t) \<longrightarrow> sourceDomain P t = ''Unbekannte Quelle'')
   \<and> (\<not> blank (url t) \<longrightarrow>
        sourceDomain P t =
          (case url_hostname P (trim (orEmpty (url t))) of
             Some h \<Rightarrow> if prefix ''www.'' h then drop 4 h else h
           | None \<Rightarrow> take 40 (trim (orEmpty (url t)))))
   \<and> distinct (map fst (sortedSources P items))
   \<and> (\<forall>(domain, members) \<in> set (sortedSources P items).
         members = filter (\<lambda>t. sourceDomain P t = domain) items \<and> members \<noteq> [])
   \<and> mset (concat (map snd (sortedSources P items))) = mset items
   \<and> sorted_wrt (\<lambda>a b. length (snd b) \<le> length (snd a)) (sortedSources P items)"
proof (intro conjI)
  let ?m = "groupLoop (sourceDomain P) items"
  show "blank (url t) \<longrightarrow> sourceDomain P t = ''Unbekannte Quelle''"
    using sourceDomain_cases [of t P] by blast
  show "\<not> blank (url t) \<longrightarrow>
        sourceDomain P t =
          (case url_hostname P (trim (orEmpty (url t))) of
             Some h \<Rightarrow> if prefix ''www.'' h then drop 4 h else h
           | None \<Rightarrow> take 40 (trim (orEmpty (url t))))"
    using sourceDomain_cases [of t P] by blast
  show "distinct (map fst (sortedSources P items))"
    unfolding sortedSources_eq distinct_map_sortBy by (rule distinct_groupLoop)
  show "\<forall>(domain, members) \<in> set (sortedSources P items).
         members = filter (\<lambda>t. sourceDomain P t = domain) items \<and> members \<noteq> []"
    unfolding sortedSources_set using entries_groupLoop [of _ _ "sourceDomain P" items] by blast
  have "mset (concat (map snd (sortedSources P items))) = mset (concat (map snd ?m))"
    unfolding sortedSources_eq by (rule mset_concat_sortBy)
  also have "\<dots> = mset items"
    unfolding groupLoop_values
    by (rule mset_buckets [OF distinct_groupLoop]) (simp add: keys_groupLoop)
  finally show "mset (concat (map snd (sortedSources P items))) = mset items" .
  show "sorted_wrt (\<lambda>a b. length (snd b) \<le> length (snd a)) (sortedSources P items)"
    by (rule sortedSources_by_count)
qed

theorem source_clusters_witness:
  "blank (url (blankTrend\<lparr>ident := IdNum 1, url := Some ''  ''\<rparr>))
   \<and> sourceDomain refPlatform (blankTrend\<lparr>ident := IdNum 1, url := Some ''  ''\<rparr>)
       = ''Unbekannte Quelle''
   \<and> \<not> blank (url (blankTrend\<lparr>ident := IdNum 2, url := Some ''https://www.spotify.com/a''\<rparr>))
   \<and> sourceDomain refPlatform (blankTrend\<lparr>ident := IdNum 2, url := Some ''https://www.spotify.com/a''\<rparr>)
       = ''spotify.com''
   \<and> sortedSources refPlatform
        [blankTrend\<lparr>ident := IdNum 1, url := Some ''  ''\<rparr>,
         blankTrend\<lparr>ident := IdNum 2, url := Some ''https://www.spotify.com/a''\<rparr>,
         blankTrend\<lparr>ident := IdNum 3, url := Some ''https://example.org/x''\<rparr>,
         blankTrend\<lparr>ident := IdNum 4, url := Some '' https://spotify.com/b''\<rparr>]
      = [(''spotify.com'',
            [blankTrend\<lparr>ident := IdNum 2, url := Some ''https://www.spotify.com/a''\<rparr>,
             blankTrend\<lparr>ident := IdNum 4, url := Some '' https://spotify.com/b''\<rparr>]),
         (''Unbekannte Quelle'', [blankTrend\<lparr>ident := IdNum 1, url := Some ''  ''\<rparr>]),
         (''example.org'', [blankTrend\<lparr>ident := IdNum 3, url := Some ''https://example.org/x''\<rparr>])]"
proof -
  let ?a = "blankTrend\<lparr>ident := IdNum 1, url := Some ''  ''\<rparr>"
  let ?b = "blankTrend\<lparr>ident := IdNum 2, url := Some ''https://www.spotify.com/a''\<rparr>"
  have ba: "blank (url ?a)" by code_simp
  have da: "sourceDomain refPlatform ?a = ''Unbekannte Quelle''"
    using source_clusters [of ?a refPlatform] ba by blast
  have bb: "\<not> blank (url ?b)" by code_simp
  have "sourceDomain refPlatform ?b =
          (case url_hostname refPlatform (trim (orEmpty (url ?b))) of
             Some h \<Rightarrow> if prefix ''www.'' h then drop 4 h else h
           | None \<Rightarrow> take 40 (trim (orEmpty (url ?b))))"
    using source_clusters [of ?b refPlatform] bb by blast
  also have "\<dots> = ''spotify.com''" by code_simp
  finally have db: "sourceDomain refPlatform ?b = ''spotify.com''" .
  have s: "sortedSources refPlatform
        [?a, ?b, blankTrend\<lparr>ident := IdNum 3, url := Some ''https://example.org/x''\<rparr>,
         blankTrend\<lparr>ident := IdNum 4, url := Some '' https://spotify.com/b''\<rparr>]
      = [(''spotify.com'', [?b, blankTrend\<lparr>ident := IdNum 4, url := Some '' https://spotify.com/b''\<rparr>]),
         (''Unbekannte Quelle'', [?a]),
         (''example.org'', [blankTrend\<lparr>ident := IdNum 3, url := Some ''https://example.org/x''\<rparr>])]"
    by code_simp
  show ?thesis using ba da bb db s by blast
qed

text \<open>
  Claim C7 as stated fails: records with unparsable URLs do not join the records without
  a URL in one cluster; each is clustered under the text of its own URL.
\<close>

theorem unparsable_urls_counterexample:
  "url_hostname refPlatform ''example.com/charts'' = None
   \<and> url_hostname refPlatform ''spotify newsroom'' = None
   \<and> sortedSources refPlatform
        [blankTrend\<lparr>ident := IdNum 1, url := Some ''example.com/charts''\<rparr>,
         blankTrend\<lparr>ident := IdNum 2, url := Some ''spotify newsroom''\<rparr>,
         blankTrend\<lparr>ident := IdNum 3\<rparr>]
      = [(''example.com/charts'', [blankTrend\<lparr>ident := IdNum 1, url := Some ''example.com/charts''\<rparr>]),
         (''spotify newsroom'', [blankTrend\<lparr>ident := IdNum 2, url := Some ''spotify newsroom''\<rparr>]),
         (''Unbekannte Quelle'', [blankTrend\<lparr>ident := IdNum 3\<rparr>])]"
  by code_simp


section \<open>Rounding to double precision\<close>

lemma roundHalfEven_error: "\<bar>of_int (roundHalfEven y) - y\<bar> \<le> 1 / 2"
proof -
  have "of_int \<lfloor>y\<rfloor> \<le> y" "y < of_int \<lfloor>y\<rfloor> + 1" by linarith+
  then show ?thesis
    by (auto simp: roundHalfEven_def Let_def)
qed

lemma binade_bounds:
  assumes "0 < q"
  shows "2 powi binade q \<le> q" "q < 2 powi (binade q + 1)"
proof -
  obtain a b where ab: "quotient_of q = (a, b)" by (cases "quotient_of q")
  have b: "0 < b" using ab by (rule quotient_of_denom_pos)
  have q: "q = of_int a / of_int b" using ab by (rule quotient_of_div)
  have a: "0 < a" using assms b unfolding q by (simp add: zero_less_divide_iff)
  define k where "k = bitlen a - bitlen b"
  have la: "0 < bitlen a" "0 < bitlen b"
    using a b bitlen_eq_zero_iff [of a] bitlen_eq_zero_iff [of b] bitlen_nonneg [of a]
      bitlen_nonneg [of b] by linarith+
  have ba: "(2::int) ^ nat (bitlen a - 1) \<le> a" "a < 2 ^ nat (bitlen a)"
    using bitlen_bounds [OF a] by auto
  have bb: "(2::int) ^ nat (bitlen b - 1) \<le> b" "b < 2 ^ nat (bitlen b)"
    using bitlen_bounds [OF b] by auto
  have cast_le: "(2::rat) ^ n \<le> of_int x" if "(2::int) ^ n \<le> x" for n x
    using that by (metis of_int_le_iff of_int_numeral of_int_power)
  have cast_less: "of_int x < (2::rat) ^ n" if "x < (2::int) ^ n" for n x
    using that by (metis of_int_less_iff of_int_numeral of_int_power)
  have ra: "(2::rat) powi (bitlen a - 1) \<le> of_int a" "of_int a < (2::rat) powi bitlen a"
    using cast_le [OF ba(1)] cast_less [OF ba(2)] la by (simp_all add: power_int_def)
  have rb: "(2::rat) powi (bitlen b - 1) \<le> of_int b" "of_int b < (2::rat) powi bitlen b"
    using cast_le [OF bb(1)] cast_less [OF bb(2)] la by (simp_all add: power_int_def)
  have bpos: "(0::rat) < of_int b" using b by simp
  have up: "q < 2 powi (k + 1)"
  proof -
    have "(2::rat) powi bitlen a = 2 powi (k + 1) * 2 powi (bitlen b - 1)"
      by (simp add: k_def flip: power_int_add)
    then have "of_int a < (2::rat) powi (k + 1) * 2 powi (bitlen b - 1)"
      using ra(2) by simp
    also have "\<dots> \<le> 2 powi (k + 1) * of_int b"
      using rb(1) by (intro mult_left_mono) simp_all
    finally show ?thesis unfolding q using bpos by (simp add: pos_divide_less_eq)
  qed
  have lo: "2 powi (k - 1) \<le> q"
  proof -
    have "(2::rat) powi (k - 1) * of_int b \<le> 2 powi (k - 1) * 2 powi bitlen b"
      using rb(2) by (intro mult_left_mono) simp_all
    also have "\<dots> = 2 powi (bitlen a - 1)"
      by (simp add: k_def flip: power_int_add)
    also have "\<dots> \<le> of_int a" by (rule ra(1))
    finally show ?thesis unfolding q using bpos by (simp add: pos_le_divide_eq)
  qed
  have bin: "binade q = (if 2 powi k \<le> q then k else k - 1)"
    by (simp add: binade_def ab k_def)
  show "2 powi binade q \<le> q" using lo by (simp add: bin)
  show "q < 2 powi (binade q + 1)" using up by (auto simp: bin not_le)
qed


lemma fl_error: "\<bar>fl q - q\<bar> \<le> \<bar>q\<bar> * unitRoundoff"
proof (cases "q = 0")
  case True
  then show ?thesis by (simp add: fl_def)
next
  case False
  define e where "e = binade \<bar>q\<bar> - 52"
  define p :: rat where "p = 2 powi e"
  have p: "0 < p" by (simp add: p_def)
  have flq: "fl q = of_int (roundHalfEven (q / p)) * p"
    using False by (simp add: fl_def e_def p_def Let_def)
  have "fl q - q = (of_int (roundHalfEven (q / p)) - q / p) * p"
    using p by (simp add: flq field_simps)
  then have "\<bar>fl q - q\<bar> = \<bar>of_int (roundHalfEven (q / p)) - q / p\<bar> * p"
    using p by (simp add: abs_mult)
  also have "\<dots> \<le> 1 / 2 * p"
    using roundHalfEven_error [of "q / p"] p by (intro mult_right_mono) simp_all
  finally have err: "\<bar>fl q - q\<bar> \<le> p / 2" by simp
  have "(2::rat) powi binade \<bar>q\<bar> = 2 powi e * 2 ^ 52"
    using power_int_add [of "2::rat" e 52] by (simp add: e_def)
  then have "p * 2 ^ 52 \<le> \<bar>q\<bar>"
    using binade_bounds(1) [of "\<bar>q\<bar>"] False by (simp add: p_def)
  then have "p / 2 \<le> \<bar>q\<bar> * unitRoundoff"
    by (simp add: unitRoundoff_def field_simps)
  then show ?thesis using err by linarith
qed

lemma fl_between:
  assumes "0 \<le> L" "L \<le> q" "q \<le> U"
  shows "L * (1 - unitRoundoff) \<le> fl q" "fl q \<le> U * (1 + unitRoundoff)"
proof -
  have u: "0 \<le> unitRoundoff" "unitRoundoff \<le> 1" by (simp_all add: unitRoundoff_def)
  have q: "0 \<le> q" using assms by simp
  have e: "\<bar>fl q - q\<bar> \<le> q * unitRoundoff" using fl_error [of q] q by simp
  have "L * (1 - unitRoundoff) \<le> q * (1 - unitRoundoff)"
    using assms u by (intro mult_right_mono) simp_all
  then show "L * (1 - unitRoundoff) \<le> fl q" using e by (simp add: algebra_simps abs_le_iff)
  have "q * (1 + unitRoundoff) \<le> U * (1 + unitRoundoff)"
    using assms u by (intro mult_right_mono) simp_all
  then show "fl q \<le> U * (1 + unitRoundoff)" using e by (simp add: algebra_simps abs_le_iff)
qed

lemma share_between:
  assumes "0 \<le> x"
  shows "x * 100 * (1 - unitRoundoff) ^ 2 \<le> fl (fl x * 100)"
    "fl (fl x * 100) \<le> x * 100 * (1 + unitRoundoff) ^ 2"
proof -
  have u: "0 \<le> 1 - unitRoundoff" by (simp add: unitRoundoff_def)
  have a: "x * (1 - unitRoundoff) \<le> fl x" "fl x \<le> x * (1 + unitRoundoff)"
    using fl_between [of x x x] assms by simp_all
  have l: "0 \<le> x * (1 - unitRoundoff) * 100" using assms u by simp
  have "x * (1 - unitRoundoff) * 100 * (1 - unitRoundoff) \<le> fl (fl x * 100)"
    by (rule fl_between(1) [OF l, of _ "fl x * 100"]) (use a in simp_all)
  then show "x * 100 * (1 - unitRoundoff) ^ 2 \<le> fl (fl x * 100)"
    by (simp add: power2_eq_square algebra_simps)
  have "fl (fl x * 100) \<le> x * (1 + unitRoundoff) * 100 * (1 + unitRoundoff)"
    by (rule fl_between(2) [OF l, of "fl x * 100"]) (use a in simp_all)
  then show "fl (fl x * 100) \<le> x * 100 * (1 + unitRoundoff) ^ 2"
    by (simp add: power2_eq_square algebra_simps)
qed

lemma sum_between:
  assumes e: "0 \<le> eh" "0 \<le> em" "0 \<le> el"
    and h: "eh * (1 - unitRoundoff) ^ 2 \<le> ph" "ph \<le> eh * (1 + unitRoundoff) ^ 2"
    and m: "em * (1 - unitRoundoff) ^ 2 \<le> pm" "pm \<le> em * (1 + unitRoundoff) ^ 2"
    and l: "el * (1 - unitRoundoff) ^ 2 \<le> pl" "pl \<le> el * (1 + unitRoundoff) ^ 2"
  shows "(eh + em + el) * (1 - unitRoundoff) ^ 4 \<le> fl (fl (ph + pm) + pl)"
    "fl (fl (ph + pm) + pl) \<le> (eh + em + el) * (1 + unitRoundoff) ^ 4"
proof -
  define d where "d = 1 - unitRoundoff"
  define g where "g = 1 + unitRoundoff"
  have d: "0 \<le> d" "d \<le> 1" and g: "1 \<le> g" by (simp_all add: d_def g_def unitRoundoff_def)
  have d2: "0 \<le> d ^ 2" "d ^ 3 \<le> d ^ 2" using d by (simp_all add: power_decreasing)
  have g2: "g ^ 2 \<le> g ^ 3" using g by (simp add: power_increasing)
  have h': "eh * d ^ 2 \<le> ph" "ph \<le> eh * g ^ 2" using h by (simp_all add: d_def g_def)
  have m': "em * d ^ 2 \<le> pm" "pm \<le> em * g ^ 2" using m by (simp_all add: d_def g_def)
  have l': "el * d ^ 2 \<le> pl" "pl \<le> el * g ^ 2" using l by (simp_all add: d_def g_def)
  have lo1: "0 \<le> (eh + em) * d ^ 2" using e d2 by simp
  have lo2: "(eh + em) * d ^ 2 \<le> ph + pm" using h'(1) m'(1) by (simp add: algebra_simps)
  have up2: "ph + pm \<le> (eh + em) * g ^ 2" using h'(2) m'(2) by (simp add: algebra_simps)
  have s1l: "(eh + em) * d ^ 2 * d \<le> fl (ph + pm)"
    using fl_between(1) [OF lo1 lo2 order_refl] by (simp add: d_def)
  have s1u: "fl (ph + pm) \<le> (eh + em) * g ^ 2 * g"
    using fl_between(2) [OF lo1 lo2 up2] by (simp add: g_def)
  have "el * d ^ 3 \<le> el * d ^ 2" using e d2 by (intro mult_left_mono) simp_all
  then have low: "(eh + em + el) * d ^ 3 \<le> fl (ph + pm) + pl"
    using s1l l'(1) by (simp add: algebra_simps power3_eq_cube power2_eq_square)
  have "el * g ^ 2 \<le> el * g ^ 3" using e g2 by (intro mult_left_mono) simp_all
  then have upp: "fl (ph + pm) + pl \<le> (eh + em + el) * g ^ 3"
    using s1u l'(2) by (simp add: algebra_simps power3_eq_cube power2_eq_square)
  have n: "0 \<le> (eh + em + el) * d ^ 3" using e d by simp
  have "(eh + em + el) * d ^ 3 * d \<le> fl (fl (ph + pm) + pl)"
    using fl_between(1) [OF n low order_refl] by (simp add: d_def)
  then show "(eh + em + el) * (1 - unitRoundoff) ^ 4 \<le> fl (fl (ph + pm) + pl)"
    by (simp add: d_def power4_eq_xxxx power3_eq_cube algebra_simps)
  have "fl (fl (ph + pm) + pl) \<le> (eh + em + el) * g ^ 3 * g"
    using fl_between(2) [OF n low upp] by (simp add: g_def)
  then show "fl (fl (ph + pm) + pl) \<le> (eh + em + el) * (1 + unitRoundoff) ^ 4"
    by (simp add: g_def power4_eq_xxxx power3_eq_cube algebra_simps)
qed

lemma roundoff_numbers:
  "100 - 1 / 10 ^ 13 \<le> 100 * (1 - unitRoundoff) ^ 4"
  "100 * (1 + unitRoundoff) ^ 4 \<le> 100 + 1 / 10 ^ 13"
  "100 * (1 + unitRoundoff) ^ 2 - 100 \<le> 1 / 10 ^ 13"
  "100 - 100 * (1 - unitRoundoff) ^ 2 \<le> 1 / 10 ^ 13"
  by code_simp+


lemma bands_cover: "distHigh fs + distMid fs + distLow fs = length fs"
  by (induction fs) (auto simp: distHigh_def distMid_def distLow_def)

lemma share_close:
  assumes "c \<le> T" "0 < T"
  shows "\<bar>fl (fl (of_nat c / of_nat T) * 100) - exactShare c T\<bar> \<le> 1 / 10 ^ 13"
    "exactShare c T * (1 - unitRoundoff) ^ 2 \<le> fl (fl (of_nat c / of_nat T) * 100)"
    "fl (fl (of_nat c / of_nat T) * 100) \<le> exactShare c T * (1 + unitRoundoff) ^ 2"
    "0 \<le> exactShare c T"
proof -
  define x :: rat where "x = of_nat c / of_nat T"
  have x: "0 \<le> x" "x \<le> 1" using assms by (simp_all add: x_def)
  have e: "exactShare c T = x * 100" using assms by (simp add: exactShare_def x_def max_def)
  show lo: "exactShare c T * (1 - unitRoundoff) ^ 2 \<le> fl (fl (of_nat c / of_nat T) * 100)"
    and up: "fl (fl (of_nat c / of_nat T) * 100) \<le> exactShare c T * (1 + unitRoundoff) ^ 2"
    using share_between [OF x(1)] by (simp_all add: e x_def)
  show "0 \<le> exactShare c T" using x by (simp add: e)
  have e100: "0 \<le> x * 100" "x * 100 \<le> 100" using x by simp_all
  have g: "0 \<le> (1 + unitRoundoff) ^ 2 - 1" by (simp add: unitRoundoff_def)
  have d: "0 \<le> 1 - (1 - unitRoundoff) ^ 2" by code_simp
  have "x * 100 * ((1 + unitRoundoff) ^ 2 - 1) \<le> 100 * ((1 + unitRoundoff) ^ 2 - 1)"
    using e100 g by (intro mult_right_mono) simp_all
  then have a: "x * 100 * (1 + unitRoundoff) ^ 2 - x * 100 \<le> 100 * (1 + unitRoundoff) ^ 2 - 100"
    by (simp only: right_diff_distrib mult_1_right)
  have "x * 100 * (1 - (1 - unitRoundoff) ^ 2) \<le> 100 * (1 - (1 - unitRoundoff) ^ 2)"
    using e100 d by (intro mult_right_mono) simp_all
  then have b: "x * 100 - x * 100 * (1 - unitRoundoff) ^ 2 \<le> 100 - 100 * (1 - unitRoundoff) ^ 2"
    by (simp only: right_diff_distrib mult_1_right)
  have "fl (fl (of_nat c / of_nat T) * 100) - x * 100 \<le> 1 / 10 ^ 13"
    "- (1 / 10 ^ 13) \<le> fl (fl (of_nat c / of_nat T) * 100) - x * 100"
    using lo up a b roundoff_numbers(3,4) unfolding e by linarith+
  then show "\<bar>fl (fl (of_nat c / of_nat T) * 100) - exactShare c T\<bar> \<le> 1 / 10 ^ 13"
    unfolding e abs_le_iff by linarith
qed

text \<open>
  Claim C9, as the code has it. The three bands cover the filtered set, and the donut's
  total is its size. Each proportion is the band's count divided by
  \<open>max(1, total_banded)\<close>, times 100, computed in double precision. For the empty set
  the three proportions and their sum are exactly 0 (the divisor is 1, so there is no
  NaN). For a non-empty set the exact proportions sum to exactly 100, each computed
  proportion lies within \<open>10^-13\<close> of the exact one, and the computed sum
  \<^verbatim>\<open>highPct + midPct + lowPct\<close> lies within \<open>10^-13\<close> of 100.
\<close>

theorem donut_shares:
  "distHigh fs + distMid fs + distLow fs = length fs
   \<and> total_banded (donutStyle (distHigh fs) (distMid fs) (distLow fs)) = length fs
   \<and> (fs = [] \<longrightarrow>
        highPct (donutStyle (distHigh fs) (distMid fs) (distLow fs)) = 0
        \<and> midPct (donutStyle (distHigh fs) (distMid fs) (distLow fs)) = 0
        \<and> lowPct (donutStyle (distHigh fs) (distMid fs) (distLow fs)) = 0
        \<and> lowStop (donutStyle (distHigh fs) (distMid fs) (distLow fs)) = 0)
   \<and> (fs \<noteq> [] \<longrightarrow>
        exactShare (distHigh fs) (length fs) + exactShare (distMid fs) (length fs)
          + exactShare (distLow fs) (length fs) = 100
        \<and> \<bar>highPct (donutStyle (distHigh fs) (distMid fs) (distLow fs))
              - exactShare (distHigh fs) (length fs)\<bar> \<le> 1 / 10 ^ 13
        \<and> \<bar>midPct (donutStyle (distHigh fs) (distMid fs) (distLow fs))
              - exactShare (distMid fs) (length fs)\<bar> \<le> 1 / 10 ^ 13
        \<and> \<bar>lowPct (donutStyle (distHigh fs) (distMid fs) (distLow fs))
              - exactShare (distLow fs) (length fs)\<bar> \<le> 1 / 10 ^ 13
        \<and> \<bar>lowStop (donutStyle (distHigh fs) (distMid fs) (distLow fs)) - 100\<bar> \<le> 1 / 10 ^ 13)"
proof (intro conjI impI)
  define h m l T where "h = distHigh fs" and "m = distMid fs" and "l = distLow fs"
    and "T = length fs"
  have sum: "h + m + l = T" by (simp add: h_def m_def l_def T_def bands_cover)
  show "distHigh fs + distMid fs + distLow fs = length fs" by (rule bands_cover)
  show "total_banded (donutStyle (distHigh fs) (distMid fs) (distLow fs)) = length fs"
    by (simp add: donutStyle_def Let_def bands_cover)
  {
    assume "fs = []"
    then have z: "distHigh fs = 0" "distMid fs = 0" "distLow fs = 0"
      by (simp_all add: distHigh_def distMid_def distLow_def)
    show "highPct (donutStyle (distHigh fs) (distMid fs) (distLow fs)) = 0"
      "midPct (donutStyle (distHigh fs) (distMid fs) (distLow fs)) = 0"
      "lowPct (donutStyle (distHigh fs) (distMid fs) (distLow fs)) = 0"
      "lowStop (donutStyle (distHigh fs) (distMid fs) (distLow fs)) = 0"
      by (simp_all add: z donutStyle_def fl_def)
  }
  {
    assume "fs \<noteq> []"
    then have T: "0 < T" by (simp add: T_def)
    have le: "h \<le> T" "m \<le> T" "l \<le> T" using sum by simp_all
    have mx: "max 1 (h + m + l) = T" using T sum by simp
    have ex: "exactShare h T + exactShare m T + exactShare l T = 100"
    proof -
      have "exactShare h T + exactShare m T + exactShare l T
            = of_nat (h + m + l) / of_nat T * 100"
        using T by (simp add: exactShare_def max_def add_divide_distrib algebra_simps)
      then show ?thesis using T sum by simp
    qed
    show "exactShare (distHigh fs) (length fs) + exactShare (distMid fs) (length fs)
          + exactShare (distLow fs) (length fs) = 100"
      using ex by (simp add: h_def m_def l_def T_def)
    have hp: "highPct (donutStyle h m l) = fl (fl (of_nat h / of_nat T) * 100)"
      and mp: "midPct (donutStyle h m l) = fl (fl (of_nat m / of_nat T) * 100)"
      and lp: "lowPct (donutStyle h m l) = fl (fl (of_nat l / of_nat T) * 100)"
      and ls: "lowStop (donutStyle h m l) =
                 fl (fl (fl (fl (of_nat h / of_nat T) * 100) + fl (fl (of_nat m / of_nat T) * 100))
                     + fl (fl (of_nat l / of_nat T) * 100))"
      unfolding donutStyle_def Let_def mx by simp_all
    show "\<bar>highPct (donutStyle (distHigh fs) (distMid fs) (distLow fs))
              - exactShare (distHigh fs) (length fs)\<bar> \<le> 1 / 10 ^ 13"
      using share_close(1) [OF le(1) T] hp by (simp add: h_def m_def l_def T_def)
    show "\<bar>midPct (donutStyle (distHigh fs) (distMid fs) (distLow fs))
              - exactShare (distMid fs) (length fs)\<bar> \<le> 1 / 10 ^ 13"
      using share_close(1) [OF le(2) T] mp by (simp add: h_def m_def l_def T_def)
    show "\<bar>lowPct (donutStyle (distHigh fs) (distMid fs) (distLow fs))
              - exactShare (distLow fs) (length fs)\<bar> \<le> 1 / 10 ^ 13"
      using share_close(1) [OF le(3) T] lp by (simp add: h_def m_def l_def T_def)
    have "(exactShare h T + exactShare m T + exactShare l T) * (1 - unitRoundoff) ^ 4
            \<le> lowStop (donutStyle h m l)"
      "lowStop (donutStyle h m l)
         \<le> (exactShare h T + exactShare m T + exactShare l T) * (1 + unitRoundoff) ^ 4"
      unfolding ls
      by (rule sum_between [OF share_close(4) [OF le(1) T] share_close(4) [OF le(2) T]
            share_close(4) [OF le(3) T] share_close(2,3) [OF le(1) T] share_close(2,3) [OF le(2) T]
            share_close(2,3) [OF le(3) T]])+
    then have "\<bar>lowStop (donutStyle h m l) - 100\<bar> \<le> 1 / 10 ^ 13"
      unfolding ex abs_le_iff using roundoff_numbers(1,2) by linarith
    then show "\<bar>lowStop (donutStyle (distHigh fs) (distMid fs) (distLow fs)) - 100\<bar> \<le> 1 / 10 ^ 13"
      by (simp add: h_def m_def l_def)
  }
qed

theorem donut_shares_witness:
  "total_banded (donutStyle
       (distHigh [blankTrend\<lparr>relevance_score := Some 0.9\<rparr>, blankTrend])
       (distMid [blankTrend\<lparr>relevance_score := Some 0.9\<rparr>, blankTrend])
       (distLow [blankTrend\<lparr>relevance_score := Some 0.9\<rparr>, blankTrend])) = 2
   \<and> \<bar>lowStop (donutStyle
       (distHigh [blankTrend\<lparr>relevance_score := Some 0.9\<rparr>, blankTrend])
       (distMid [blankTrend\<lparr>relevance_score := Some 0.9\<rparr>, blankTrend])
       (distLow [blankTrend\<lparr>relevance_score := Some 0.9\<rparr>, blankTrend])) - 100\<bar> \<le> 1 / 10 ^ 13
   \<and> highPct (donutStyle (distHigh []) (distMid []) (distLow [])) = 0
   \<and> lowStop (donutStyle (distHigh []) (distMid []) (distLow [])) = 0"
proof -
  let ?R = "[blankTrend\<lparr>relevance_score := Some 0.9\<rparr>, blankTrend]"
  let ?d = "donutStyle (distHigh ?R) (distMid ?R) (distLow ?R)"
  have ne: "?R \<noteq> []" by simp
  have "total_banded ?d = length ?R"
    using donut_shares [of ?R] by blast
  then have t: "total_banded ?d = 2" by simp
  have s: "\<bar>lowStop ?d - 100\<bar> \<le> 1 / 10 ^ 13"
    using donut_shares [of ?R] ne by blast
  have z: "highPct (donutStyle (distHigh []) (distMid []) (distLow [])) = 0
           \<and> lowStop (donutStyle (distHigh []) (distMid []) (distLow [])) = 0"
    using donut_shares [of "[]"] by blast
  show ?thesis using t s z by blast
qed

text \<open>
  Claim C9 as stated fails: in double precision the proportions of a non-empty set need
  not sum to exactly 100, and their sum can exceed 100. For one record in each band the
  sum is \<open>100 - 2^-46\<close> (JavaScript prints 99.99999999999999); for 0, 1 and 23 records
  it is \<open>100 + 2^-46\<close> (100.00000000000001).
\<close>

theorem donut_sum_counterexample:
  "distHigh [blankTrend\<lparr>relevance_score := Some 0.9\<rparr>, blankTrend\<lparr>relevance_score := Some 0.7\<rparr>,
             blankTrend] = 1
   \<and> distMid [blankTrend\<lparr>relevance_score := Some 0.9\<rparr>, blankTrend\<lparr>relevance_score := Some 0.7\<rparr>,
              blankTrend] = 1
   \<and> distLow [blankTrend\<lparr>relevance_score := Some 0.9\<rparr>, blankTrend\<lparr>relevance_score := Some 0.7\<rparr>,
              blankTrend] = 1
   \<and> lowStop (donutStyle 1 1 1) = 100 - 1 / 2 ^ 46
   \<and> lowStop (donutStyle 1 1 1) < 100
   \<and> distHigh (blankTrend\<lparr>relevance_score := Some 0.7\<rparr> # replicate 23 blankTrend) = 0
   \<and> distMid (blankTrend\<lparr>relevance_score := Some 0.7\<rparr> # replicate 23 blankTrend) = 1
   \<and> distLow (blankTrend\<lparr>relevance_score := Some 0.7\<rparr> # replicate 23 blankTrend) = 23
   \<and> lowStop (donutStyle 0 1 23) = 100 + 1 / 2 ^ 46
   \<and> 100 < lowStop (donutStyle 0 1 23)"
  by code_simp


end
